theory Spec2Isabelle
  imports Complex_Main "HOL-Library.Multiset" "HOL-Library.Sublist" "HOL-Library.Product_Lexorder"
begin

section \<open>The orientation search of \<^verbatim>\<open>bin/dwigradcheck\<close>\<close>

text \<open>
  The script \<^verbatim>\<open>bin/dwigradcheck\<close> is embedded as a function over an explicit script
  state. Python floats are modelled by \<^typ>\<open>real\<close>: the script only multiplies table
  entries by \<^verbatim>\<open>1.0\<close> and \<^verbatim>\<open>-1.0\<close>, negates them and compares mean lengths, and on
  floats other than NaN these operations are exact, so they agree with the reals (the sign
  of a zero and NaN are outside the model). The text of a written file is modelled by the
  matrix of the values written.
\<close>

subsection \<open>Candidates (lines 115 to 125)\<close>

text \<open>
  \<^verbatim>\<open>axis_flips = [ 'none', 0, 1, 2 ]\<close>: a flip is the string \<^verbatim>\<open>'none'\<close> or an axis
  number. A permutation is a Python tuple of three axis numbers, a basis one of the two
  strings \<^verbatim>\<open>'scanner'\<close> and \<^verbatim>\<open>'image'\<close>.
\<close>

datatype flip = FlipNone | FlipAxis nat

datatype basis = BasisScanner | BasisImage

type_synonym permutation = "nat \<times> nat \<times> nat"

type_synonym candidate = "flip \<times> permutation \<times> basis"

definition axis_flips :: "flip list" where
  "axis_flips = [FlipNone, FlipAxis 0, FlipAxis 1, FlipAxis 2]"

definition axis_permutations :: "permutation list" where
  "axis_permutations = [(0, 1, 2), (0, 2, 1), (1, 0, 2), (1, 2, 0), (2, 0, 1), (2, 1, 0)]"

definition grad_basis :: "basis list" where
  "grad_basis = [BasisScanner, BasisImage]"

text \<open>
  The three nested \<^verbatim>\<open>for\<close> loops of lines 123 to 125 visit the candidates in the order
  of this list.
\<close>

definition candidates :: "candidate list" where
  "candidates =
     concat (map (\<lambda>flip. concat (map (\<lambda>permutation. map (\<lambda>basis. (flip, permutation, basis))
       grad_basis) axis_permutations)) axis_flips)"

text \<open>The permutations of \<open>(0, 1, 2)\<close>, as a set of triples.\<close>

definition permutations_012 :: "permutation set" where
  "permutations_012 = {(a, b, c). {a, b, c} = {0, 1, 2}}"

subsection \<open>Errors, the interpreter, the script state\<close>

text \<open>
  The four error kinds of the specification stand for the calls of \<^verbatim>\<open>app.error\<close> and
  the failures of \<^verbatim>\<open>run.command\<close>, which end the run; \<open>IndexError\<close> and \<open>TypeError\<close>
  are the Python exceptions the script's own expressions can raise.
\<close>

datatype error =
    MutuallyExclusiveOptionError
  | InvalidInputError
  | GradientTableMismatchError
  | ExternalToolError
  | IndexError
  | TypeError

text \<open>
  The script starts with \<^verbatim>\<open>#!/usr/bin/env python\<close> and is written for both major
  versions of the interpreter. They differ in one operation the script uses: ordering a
  string against a number.
\<close>

datatype python = Python2 | Python3

text \<open>A line of the list \<^verbatim>\<open>lengths\<close>: \<^verbatim>\<open>[meanlength, flip, permutation, basis]\<close>.\<close>

type_synonym result = "real \<times> flip \<times> permutation \<times> basis"

text \<open>What the script does to the world outside, in order.\<close>

datatype event =
    HeaderField string string
  | MakeTempDir
  | GotoTempDir
  | Command string
  | CopyFile string string
  | WriteFile string "real list list"
  | PrintTable "result list"
  | Complete

text \<open>
  The state of a run: the events so far, the names of the files in the scratch directory,
  and the store of Python list objects. A list of floats (a row of a table, the list
  \<^verbatim>\<open>multiplier\<close>) is an entry of \<open>rows\<close>, a list of rows (a table) an entry of \<open>tabs\<close>
  holding the addresses of its rows; the address of an object is its index, and a new
  object is appended. A Python variable bound to a list holds its address, so that two
  variables can share one object.
\<close>

record state =
  trace :: "event list"
  files :: "string list"
  rows :: "real list list"
  tabs :: "nat list list"

definition initial :: state where
  "initial = \<lparr>trace = [], files = [], rows = [], tabs = []\<rparr>"

text \<open>A step of the script returns a value or raises, and leaves a state.\<close>

type_synonym 'a script = "state \<Rightarrow> (error + 'a) \<times> state"

definition ok :: "'a \<Rightarrow> 'a script" where
  "ok x st = (Inr x, st)"

definition raise :: "error \<Rightarrow> 'a script" where
  "raise e st = (Inl e, st)"

definition bind_s :: "'a script \<Rightarrow> ('a \<Rightarrow> 'b script) \<Rightarrow> 'b script" where
  "bind_s m f st = (case m st of (Inl e, st') \<Rightarrow> (Inl e, st') | (Inr x, st') \<Rightarrow> f x st')"

definition emit :: "event \<Rightarrow> unit script" where
  "emit ev st = (Inr (), st\<lparr>trace := trace st @ [ev]\<rparr>)"

subsection \<open>List objects\<close>

definition new_row :: "real list \<Rightarrow> nat script" where
  "new_row xs st = (Inr (length (rows st)), st\<lparr>rows := rows st @ [xs]\<rparr>)"

definition new_tab :: "nat list \<Rightarrow> nat script" where
  "new_tab rs st = (Inr (length (tabs st)), st\<lparr>tabs := tabs st @ [rs]\<rparr>)"

text \<open>\<^verbatim>\<open>copy.copy(table)\<close>: a new list object holding the same row objects.\<close>

definition copy_copy :: "nat \<Rightarrow> nat script" where
  "copy_copy g st = new_tab (tabs st ! g) st"

text \<open>\<^verbatim>\<open>table[i]\<close> and \<^verbatim>\<open>table[i] = row\<close>, \<^verbatim>\<open>row[i] = v\<close>; an index out of range raises.\<close>

definition tab_item :: "nat \<Rightarrow> nat \<Rightarrow> nat script" where
  "tab_item g i st =
     (if i < length (tabs st ! g) then (Inr (tabs st ! g ! i), st) else (Inl IndexError, st))"

definition set_tab_item :: "nat \<Rightarrow> nat \<Rightarrow> nat \<Rightarrow> unit script" where
  "set_tab_item g i r st =
     (if i < length (tabs st ! g)
      then (Inr (), st\<lparr>tabs := (tabs st)[g := (tabs st ! g)[i := r]]\<rparr>)
      else (Inl IndexError, st))"

definition set_row_item :: "nat \<Rightarrow> nat \<Rightarrow> real \<Rightarrow> unit script" where
  "set_row_item a i v st =
     (if i < length (rows st ! a)
      then (Inr (), st\<lparr>rows := (rows st)[a := (rows st ! a)[i := v]]\<rparr>)
      else (Inl IndexError, st))"

text \<open>The float matrix a table object holds.\<close>

definition read_table :: "state \<Rightarrow> nat \<Rightarrow> real list list" where
  "read_table st g = map (\<lambda>r. rows st ! r) (tabs st ! g)"

text \<open>A table object whose rows are objects of the store.\<close>

definition valid_table :: "state \<Rightarrow> nat \<Rightarrow> bool" where
  "valid_table st g \<longleftrightarrow> g < length (tabs st) \<and> list_all (\<lambda>r. r < length (rows st)) (tabs st ! g)"

text \<open>
  A comprehension \<^verbatim>\<open>[ f(row) for row in table ]\<close> whose items are new lists: the rows
  are visited in order, and each item is a new list object.
\<close>

fun for_rows :: "(state \<Rightarrow> nat \<Rightarrow> error + real list) \<Rightarrow> nat list \<Rightarrow> nat list script" where
  "for_rows f [] st = (Inr [], st)"
| "for_rows f (r # rs) st =
     (case f st r of
        Inl e \<Rightarrow> (Inl e, st)
      | Inr xs \<Rightarrow>
          (case for_rows f rs (st\<lparr>rows := rows st @ [xs]\<rparr>) of
             (Inl e, st') \<Rightarrow> (Inl e, st')
           | (Inr as, st') \<Rightarrow> (Inr (length (rows st) # as), st')))"

definition comprehension :: "(state \<Rightarrow> nat \<Rightarrow> error + real list) \<Rightarrow> nat \<Rightarrow> nat script" where
  "comprehension f g = bind_s (\<lambda>st. for_rows f (tabs st ! g) st) new_tab"

subsection \<open>The transformed gradient table of a candidate (lines 129 to 163)\<close>

text \<open>
  Scanner basis, lines 131 to 139. \<^verbatim>\<open>zip\<close> stops at the shorter of the row and the
  multiplier; \<^verbatim>\<open>row[3]\<close> and \<^verbatim>\<open>row[permutation[i]]\<close> raise on a row that is too short.
\<close>

definition times_multiplier :: "nat \<Rightarrow> state \<Rightarrow> nat \<Rightarrow> error + real list" where
  "times_multiplier multiplier st row =
     Inr (map (\<lambda>(r, m). r * m) (zip (rows st ! row) (rows st ! multiplier)))"

definition permuted_row :: "permutation \<Rightarrow> state \<Rightarrow> nat \<Rightarrow> error + real list" where
  "permuted_row permutation st row =
     (case permutation of (p0, p1, p2) \<Rightarrow>
        let xs = rows st ! row in
        if p0 < length xs \<and> p1 < length xs \<and> p2 < length xs \<and> 3 < length xs
        then Inr [xs ! p0, xs ! p1, xs ! p2, xs ! 3]
        else Inl IndexError)"

definition scanner_grad :: "flip \<Rightarrow> permutation \<Rightarrow> nat \<Rightarrow> nat script" where
  "scanner_grad flip permutation grad_mrtrix =
     bind_s (copy_copy grad_mrtrix) (\<lambda>grad.
     bind_s (case flip of
               FlipNone \<Rightarrow> ok grad
             | FlipAxis axis \<Rightarrow>
                 bind_s (new_row [1, 1, 1, 1]) (\<lambda>multiplier.
                 bind_s (set_row_item multiplier axis (- 1)) (\<lambda>_.
                 comprehension (times_multiplier multiplier) grad))) (\<lambda>grad.
     comprehension (permuted_row permutation) grad))"

text \<open>
  Image basis, lines 151 to 156: the assignment \<^verbatim>\<open>grad[flip] = ...\<close> stores a new row
  object in the copy.
\<close>

definition image_grad :: "flip \<Rightarrow> permutation \<Rightarrow> nat \<Rightarrow> nat script" where
  "image_grad flip permutation grad_fsl =
     bind_s (copy_copy grad_fsl) (\<lambda>grad.
     bind_s (case flip of
               FlipNone \<Rightarrow> ok ()
             | FlipAxis axis \<Rightarrow>
                 bind_s (tab_item grad axis) (\<lambda>row.
                 bind_s (\<lambda>st. new_row (map uminus (rows st ! row)) st) (\<lambda>negated.
                 set_tab_item grad axis negated))) (\<lambda>_.
     case permutation of (p0, p1, p2) \<Rightarrow>
       bind_s (tab_item grad p0) (\<lambda>r0.
       bind_s (tab_item grad p1) (\<lambda>r1.
       bind_s (tab_item grad p2) (\<lambda>r2.
       new_tab [r0, r1, r2])))))"

subsection \<open>Text\<close>

text \<open>\<^verbatim>\<open>str\<close> of an integer.\<close>

function str_nat :: "nat \<Rightarrow> string" where
  "str_nat n =
     (if n < 10 then [''0123456789'' ! n]
      else str_nat (n div 10) @ [''0123456789'' ! (n mod 10)])"
  by pat_completeness auto
termination
  by (relation "measure id") auto

declare str_nat.simps [simp del]

definition str_int :: "int \<Rightarrow> string" where
  "str_int i = (if i < 0 then ''-'' @ str_nat (nat (- i)) else str_nat (nat i))"

fun str_flip :: "flip \<Rightarrow> string" where
  "str_flip FlipNone = ''none''"
| "str_flip (FlipAxis axis) = str_nat axis"

fun str_basis :: "basis \<Rightarrow> string" where
  "str_basis BasisScanner = ''scanner''"
| "str_basis BasisImage = ''image''"

text \<open>Line 127.\<close>

fun suffix_of :: "candidate \<Rightarrow> string" where
  "suffix_of (flip, (p0, p1, p2), basis) =
     ''_flip'' @ str_flip flip @ ''_perm'' @ str_nat p0 @ str_nat p1 @ str_nat p2
       @ ''_'' @ str_basis basis"

text \<open>Lines 142 and 158, 147 and 163, 166 and 169.\<close>

fun grad_path :: "candidate \<Rightarrow> string" where
  "grad_path (flip, permutation, BasisScanner) =
     ''grad'' @ suffix_of (flip, permutation, BasisScanner) @ ''.b''"
| "grad_path (flip, permutation, BasisImage) =
     ''bvecs'' @ suffix_of (flip, permutation, BasisImage)"

fun grad_option :: "candidate \<Rightarrow> string" where
  "grad_option (flip, permutation, BasisScanner) =
     '' -grad '' @ grad_path (flip, permutation, BasisScanner)"
| "grad_option (flip, permutation, BasisImage) =
     '' -fslgrad '' @ grad_path (flip, permutation, BasisImage) @ '' bvals''"

definition tckgen_command :: "string \<Rightarrow> candidate \<Rightarrow> string" where
  "tckgen_command number_opt c =
     ''tckgen -algorithm tensor_det data.mif'' @ grad_option c
       @ '' -seed_image mask.mif -mask mask.mif'' @ number_opt
       @ '' -minlength 0 -downsample 5 tracks'' @ suffix_of c @ ''.tck''"

definition tckstats_command :: "candidate \<Rightarrow> string" where
  "tckstats_command c = ''tckstats tracks'' @ suffix_of c @ ''.tck -output mean -ignorezero''"

subsection \<open>The command line and the world outside\<close>

text \<open>
  \<^verbatim>\<open>app.args\<close> after \<^verbatim>\<open>app.parse()\<close>: an option that was not given is \<^verbatim>\<open>None\<close>;
  \<^verbatim>\<open>-number\<close> is read with \<^verbatim>\<open>type=int\<close> and defaults to 10000.
\<close>

record args =
  args_input :: string
  args_export_grad_mrtrix :: "string option"
  args_export_grad_fsl :: "(string \<times> string) option"
  args_grad :: "string option"
  args_fslgrad :: "(string \<times> string) option"
  args_mask :: "string option"
  args_number :: int

text \<open>
  What the script reads from outside; the library \<^verbatim>\<open>mrtrix3\<close> (\<^verbatim>\<open>app\<close>,
  \<^verbatim>\<open>image\<close>, \<^verbatim>\<open>run\<close>, \<^verbatim>\<open>path\<close>) and the external commands are not part of the
  sources, so their answers are parameters of a run:
  \<^item> \<open>interpreter\<close>: the version of Python that runs the script;
  \<^item> \<open>header_size\<close>: the integers of \<^verbatim>\<open>image.headerField(input, 'size').split()\<close>;
  \<^item> \<open>command_ok\<close>: whether \<^verbatim>\<open>run.command\<close> of a command line succeeds;
  \<^item> \<open>mean_length\<close>: the float read from the first output of a command line (line 169);
  \<^item> \<open>grad_b\<close>, \<open>bvecs\<close>: the float matrices that lines 74 to 85 read from the files
    \<^verbatim>\<open>grad.b\<close> and \<^verbatim>\<open>bvecs\<close> of the scratch directory;
  \<^item> \<open>from_user\<close>, \<open>to_temp\<close>: \<^verbatim>\<open>path.fromUser\<close> and \<^verbatim>\<open>path.toTemp\<close>.
\<close>

record env =
  interpreter :: python
  header_size :: "string \<Rightarrow> int list"
  command_ok :: "string \<Rightarrow> bool"
  mean_length :: "string \<Rightarrow> real"
  grad_b :: "real list list"
  bvecs :: "real list list"
  from_user :: "string \<Rightarrow> bool \<Rightarrow> string"
  to_temp :: "string \<Rightarrow> bool \<Rightarrow> string"

text \<open>
  \<^verbatim>\<open>run.command\<close>: the command is invoked; when it fails the run ends, when it succeeds
  the files it is asked to write (\<open>outputs\<close>) exist in the scratch directory.
\<close>

definition run_command :: "env \<Rightarrow> string \<Rightarrow> string list \<Rightarrow> unit script" where
  "run_command e cmd outputs st =
     (if command_ok e cmd
      then (Inr (), st\<lparr>trace := trace st @ [Command cmd], files := files st @ outputs\<rparr>)
      else (Inl ExternalToolError, st\<lparr>trace := trace st @ [Command cmd]\<rparr>))"

text \<open>\<^verbatim>\<open>shutil.copy\<close> of a file of the user into the scratch directory; it is taken to succeed.\<close>

definition copy_file :: "string \<Rightarrow> string \<Rightarrow> string \<Rightarrow> unit script" where
  "copy_file src dst name st =
     (Inr (), st\<lparr>trace := trace st @ [CopyFile src dst], files := files st @ [name]\<rparr>)"

definition isfile :: "string \<Rightarrow> state \<Rightarrow> bool" where
  "isfile name st \<longleftrightarrow> name \<in> set (files st)"

text \<open>Lines 143 to 145 and 159 to 161: the file holds the rows of the table object.\<close>

definition write_table :: "string \<Rightarrow> nat \<Rightarrow> unit script" where
  "write_table name g st =
     (Inr (), st\<lparr>trace := trace st @ [WriteFile name (read_table st g)], files := files st @ [name]\<rparr>)"

subsection \<open>The start of the run (lines 32 to 98)\<close>

text \<open>
  Modelled from the spec: \<^verbatim>\<open>app.cmdline.flagMutuallyExclusiveOptions\<close> and
  \<^verbatim>\<open>app.parse\<close> of the library \<^verbatim>\<open>mrtrix3.app\<close>, which is not among the sources. The
  run fails with \<open>MutuallyExclusiveOptionError\<close> when both options of a flagged pair are
  given: \<^verbatim>\<open>-grad\<close> and \<^verbatim>\<open>-fslgrad\<close> (line 32), \<^verbatim>\<open>-export_grad_mrtrix\<close> and
  \<^verbatim>\<open>-export_grad_fsl\<close> (line 33).
\<close>

definition parse :: "args \<Rightarrow> unit script" where
  "parse a =
     (if args_grad a \<noteq> None \<and> args_fslgrad a \<noteq> None then raise MutuallyExclusiveOptionError
      else if args_export_grad_mrtrix a \<noteq> None \<and> args_export_grad_fsl a \<noteq> None
      then raise MutuallyExclusiveOptionError
      else ok ())"

text \<open>Lines 36 to 41; both calls of \<^verbatim>\<open>app.error\<close> are the specification's \<open>InvalidInputError\<close>.\<close>

definition check_image :: "env \<Rightarrow> args \<Rightarrow> int script" where
  "check_image e a =
     bind_s (emit (HeaderField (args_input a) ''size'')) (\<lambda>_.
     let image_dimensions = header_size e (args_input a) in
     if length image_dimensions \<noteq> 4 then raise InvalidInputError
     else if min_list image_dimensions = 1 then raise InvalidInputError
     else ok (image_dimensions ! 3))"

text \<open>The truth value of an option in \<^verbatim>\<open>if app.args.grad:\<close>: given, and not the empty string.\<close>

fun given :: "string option \<Rightarrow> bool" where
  "given None = False"
| "given (Some s) = (s \<noteq> [])"

definition make_temp_dir :: "unit script" where
  "make_temp_dir st = (Inr (), st\<lparr>trace := trace st @ [MakeTempDir], files := []\<rparr>)"

text \<open>Lines 43 to 56.\<close>

definition fill_temp_dir :: "env \<Rightarrow> args \<Rightarrow> unit script" where
  "fill_temp_dir e a =
     bind_s make_temp_dir (\<lambda>_.
     bind_s (run_command e (''mrconvert '' @ args_input a @ '' '' @ to_temp e ''data.mif'' True
               @ '' -stride 0,0,0,1 -datatype float32'') [''data.mif'']) (\<lambda>_.
     bind_s (if given (args_grad a)
             then copy_file (from_user e (the (args_grad a)) False) (to_temp e ''grad.b'' False) ''grad.b''
             else (case args_fslgrad a of
                     Some (user_bvecs, user_bvals) \<Rightarrow>
                       bind_s (copy_file (from_user e user_bvecs False) (to_temp e ''bvecs'' False) ''bvecs'') (\<lambda>_.
                       copy_file (from_user e user_bvals False) (to_temp e ''bvals'' False) ''bvals'')
                   | None \<Rightarrow> ok ())) (\<lambda>_.
     bind_s (if given (args_mask a)
             then run_command e (''mrconvert '' @ from_user e (the (args_mask a)) True @ '' ''
                    @ to_temp e ''mask.mif'' True @ '' -datatype bit'') [''mask.mif'']
             else ok ()) (\<lambda>_.
     emit GotoTempDir))))"

text \<open>Lines 61 to 71.\<close>

definition both_formats :: "env \<Rightarrow> unit script" where
  "both_formats e =
     bind_s (\<lambda>st. (if \<not> isfile ''grad.b'' st
                   then (if isfile ''bvecs'' st
                         then run_command e ''mrinfo data.mif -fslgrad bvecs bvals -export_grad_mrtrix grad.b'' [''grad.b'']
                         else run_command e ''mrinfo data.mif -export_grad_mrtrix grad.b'' [''grad.b''])
                   else ok ()) st) (\<lambda>_.
     (\<lambda>st. (if \<not> isfile ''bvecs'' st
            then (if isfile ''grad.b'' st
                  then run_command e ''mrinfo data.mif -grad grad.b -export_grad_fsl bvecs bvals'' [''bvecs'', ''bvals'']
                  else run_command e ''mrinfo data.mif -export_grad_fsl bvecs bvals'' [''bvecs'', ''bvals''])
            else ok ()) st))"

text \<open>Lines 32 to 71: the result is \<^verbatim>\<open>num_volumes\<close>.\<close>

definition prepare :: "env \<Rightarrow> args \<Rightarrow> int script" where
  "prepare e a =
     bind_s (parse a) (\<lambda>_.
     bind_s (check_image e a) (\<lambda>num_volumes.
     bind_s (fill_temp_dir e a) (\<lambda>_.
     bind_s (both_formats e) (\<lambda>_.
     ok num_volumes))))"

text \<open>
  Lines 74 to 85: each table becomes a list object of new row objects. Reading the text
  of the two files and \<^verbatim>\<open>float\<close> are outside the model; the matrices are \<open>grad_b\<close> and
  \<open>bvecs\<close>.
\<close>

fun new_rows :: "real list list \<Rightarrow> nat list script" where
  "new_rows [] st = (Inr [], st)"
| "new_rows (xs # xss) st =
     (case new_rows xss (st\<lparr>rows := rows st @ [xs]\<rparr>) of
        (Inl e, st') \<Rightarrow> (Inl e, st')
      | (Inr as, st') \<Rightarrow> (Inr (length (rows st) # as), st'))"

definition load_table :: "real list list \<Rightarrow> nat script" where
  "load_table m = bind_s (new_rows m) new_tab"

definition load_tables :: "env \<Rightarrow> (nat \<times> nat) script" where
  "load_tables e =
     bind_s (load_table (grad_b e)) (\<lambda>grad_mrtrix.
     bind_s (load_table (bvecs e)) (\<lambda>grad_fsl.
     ok (grad_mrtrix, grad_fsl)))"

text \<open>
  Lines 86 to 90; both calls of \<^verbatim>\<open>app.error\<close> are the specification's
  \<open>GradientTableMismatchError\<close>. In \<^verbatim>\<open>not len(grad_fsl) == 3 or ...\<close> the first row is
  read only when there are three rows.
\<close>

definition check_tables :: "int \<Rightarrow> nat \<Rightarrow> nat \<Rightarrow> unit script" where
  "check_tables num_volumes grad_mrtrix grad_fsl st =
     (if int (length (tabs st ! grad_mrtrix)) \<noteq> num_volumes
      then raise GradientTableMismatchError st
      else if length (tabs st ! grad_fsl) \<noteq> 3
              \<or> int (length (rows st ! (tabs st ! grad_fsl ! 0))) \<noteq> num_volumes
      then raise GradientTableMismatchError st
      else ok () st)"

text \<open>Lines 94 and 95.\<close>

definition make_mask :: "env \<Rightarrow> unit script" where
  "make_mask e st =
     (if \<not> isfile ''mask.mif'' st then run_command e ''dwi2mask data.mif mask.mif'' [''mask.mif''] st
      else ok () st)"

text \<open>Line 98.\<close>

definition number_option :: "args \<Rightarrow> string" where
  "number_option a = '' -select '' @ str_int (args_number a)"

subsection \<open>The search (lines 121 to 172)\<close>

definition make_grad :: "candidate \<Rightarrow> nat \<Rightarrow> nat \<Rightarrow> nat script" where
  "make_grad c grad_mrtrix grad_fsl =
     (case c of (flip, permutation, basis) \<Rightarrow>
        (case basis of
           BasisScanner \<Rightarrow> scanner_grad flip permutation grad_mrtrix
         | BasisImage \<Rightarrow> image_grad flip permutation grad_fsl))"

text \<open>Lines 129 to 163: the table of the candidate is built and written to its file.\<close>

definition write_grad :: "candidate \<Rightarrow> nat \<Rightarrow> nat \<Rightarrow> unit script" where
  "write_grad c grad_mrtrix grad_fsl =
     bind_s (make_grad c grad_mrtrix grad_fsl) (\<lambda>grad. write_table (grad_path c) grad)"

definition candidate_step :: "env \<Rightarrow> string \<Rightarrow> nat \<Rightarrow> nat \<Rightarrow> candidate \<Rightarrow> result script" where
  "candidate_step e number_opt grad_mrtrix grad_fsl c =
     bind_s (write_grad c grad_mrtrix grad_fsl) (\<lambda>_.
     bind_s (run_command e (tckgen_command number_opt c) [''tracks'' @ suffix_of c @ ''.tck'']) (\<lambda>_.
     bind_s (run_command e (tckstats_command c) []) (\<lambda>_.
     ok (mean_length e (tckstats_command c), c))))"

text \<open>The loops over the candidates, with the list \<^verbatim>\<open>lengths\<close> they append to.\<close>

fun search :: "env \<Rightarrow> string \<Rightarrow> nat \<Rightarrow> nat \<Rightarrow> candidate list \<Rightarrow> result list \<Rightarrow> result list script" where
  "search e number_opt grad_mrtrix grad_fsl [] lengths st = (Inr lengths, st)"
| "search e number_opt grad_mrtrix grad_fsl (c # cs) lengths st =
     (case candidate_step e number_opt grad_mrtrix grad_fsl c st of
        (Inl err, st') \<Rightarrow> (Inl err, st')
      | (Inr line, st') \<Rightarrow> search e number_opt grad_mrtrix grad_fsl cs (lengths @ [line]) st')"

subsection \<open>The ranking (lines 176 to 187)\<close>

text \<open>
  \<^verbatim>\<open>lengths.sort()\<close> orders the lines with \<^verbatim>\<open><\<close> on lists: the first items that
  differ decide, and equal lists are not less. The items are a float, a flip (a string or
  an integer), a tuple of integers and a string.

  A string against an integer: Python 2 orders every number below every string; Python 3
  raises \<open>TypeError\<close>.
\<close>

fun flip_lt :: "python \<Rightarrow> flip \<Rightarrow> flip \<Rightarrow> error + bool" where
  "flip_lt py (FlipAxis i) (FlipAxis j) = Inr (i < j)"
| "flip_lt py FlipNone FlipNone = Inr False"
| "flip_lt Python2 (FlipAxis i) FlipNone = Inr True"
| "flip_lt Python2 FlipNone (FlipAxis j) = Inr False"
| "flip_lt Python3 (FlipAxis i) FlipNone = Inl TypeError"
| "flip_lt Python3 FlipNone (FlipAxis j) = Inl TypeError"

fun perm_lt :: "permutation \<Rightarrow> permutation \<Rightarrow> bool" where
  "perm_lt (a0, a1, a2) (b0, b1, b2) =
     (if a0 \<noteq> b0 then a0 < b0 else if a1 \<noteq> b1 then a1 < b1 else a2 < b2)"

fun str_lt :: "string \<Rightarrow> string \<Rightarrow> bool" where
  "str_lt [] [] = False"
| "str_lt [] (y # ys) = True"
| "str_lt (x # xs) [] = False"
| "str_lt (x # xs) (y # ys) = (if x \<noteq> y then (of_char x :: nat) < of_char y else str_lt xs ys)"

fun line_lt :: "python \<Rightarrow> result \<Rightarrow> result \<Rightarrow> error + bool" where
  "line_lt py (m1, f1, p1, b1) (m2, f2, p2, b2) =
     (if m1 \<noteq> m2 then Inr (m1 < m2)
      else if f1 \<noteq> f2 then flip_lt py f1 f2
      else if p1 \<noteq> p2 then Inr (perm_lt p1 p2)
      else if str_basis b1 \<noteq> str_basis b2 then Inr (str_lt (str_basis b1) (str_basis b2))
      else Inr False)"

text \<open>
  \<^verbatim>\<open>list.sort\<close> of the language: a stable sort that compares items with \<^verbatim>\<open><\<close> only,
  and an exception of a comparison ends it. It is modelled by the insertion of each item,
  from the left, behind the items that are not greater.
\<close>

fun insert_line :: "('a \<Rightarrow> 'a \<Rightarrow> error + bool) \<Rightarrow> 'a \<Rightarrow> 'a list \<Rightarrow> error + 'a list" where
  "insert_line lt x [] = Inr [x]"
| "insert_line lt x (y # ys) =
     (case lt x y of
        Inl e \<Rightarrow> Inl e
      | Inr True \<Rightarrow> Inr (x # y # ys)
      | Inr False \<Rightarrow> (case insert_line lt x ys of Inl e \<Rightarrow> Inl e | Inr zs \<Rightarrow> Inr (y # zs)))"

fun sort_from :: "('a \<Rightarrow> 'a \<Rightarrow> error + bool) \<Rightarrow> 'a list \<Rightarrow> 'a list \<Rightarrow> error + 'a list" where
  "sort_from lt sorted_part [] = Inr sorted_part"
| "sort_from lt sorted_part (x # xs) =
     (case insert_line lt x sorted_part of
        Inl e \<Rightarrow> Inl e
      | Inr sorted_part' \<Rightarrow> sort_from lt sorted_part' xs)"

definition list_sort :: "('a \<Rightarrow> 'a \<Rightarrow> error + bool) \<Rightarrow> 'a list \<Rightarrow> error + 'a list" where
  "list_sort lt xs = sort_from lt [] xs"

text \<open>Lines 176 and 177: \<^verbatim>\<open>lengths.sort()\<close>, then \<^verbatim>\<open>lengths.reverse()\<close>.\<close>

definition sort_reverse :: "python \<Rightarrow> result list \<Rightarrow> error + result list" where
  "sort_reverse py lengths =
     (case list_sort (line_lt py) lengths of Inl e \<Rightarrow> Inl e | Inr sorted_lengths \<Rightarrow> Inr (rev sorted_lengths))"

subsection \<open>The export and the whole run (lines 192 to 207)\<close>

definition grad_export_option :: "env \<Rightarrow> args \<Rightarrow> string" where
  "grad_export_option e a =
     (if given (args_export_grad_mrtrix a)
      then '' -export_grad_mrtrix '' @ from_user e (the (args_export_grad_mrtrix a)) True
      else (case args_export_grad_fsl a of
              Some (user_bvecs, user_bvals) \<Rightarrow>
                '' -export_grad_fsl '' @ from_user e user_bvecs True @ '' '' @ from_user e user_bvals True
            | None \<Rightarrow> []))"

fun grad_import_option :: "candidate \<Rightarrow> string" where
  "grad_import_option (flip, permutation, BasisScanner) =
     '' -grad grad'' @ suffix_of (flip, permutation, BasisScanner) @ ''.b''"
| "grad_import_option (flip, permutation, BasisImage) =
     '' -fslgrad bvecs'' @ suffix_of (flip, permutation, BasisImage) @ '' bvals''"

definition export_best :: "env \<Rightarrow> args \<Rightarrow> result list \<Rightarrow> unit script" where
  "export_best e a lengths =
     (if grad_export_option e a \<noteq> []
      then (case lengths of
              [] \<Rightarrow> raise IndexError
            | best # _ \<Rightarrow>
                run_command e (''mrinfo data.mif'' @ grad_import_option (snd best) @ grad_export_option e a) [])
      else ok ())"

definition dwigradcheck :: "env \<Rightarrow> args \<Rightarrow> result list script" where
  "dwigradcheck e a =
     bind_s (prepare e a) (\<lambda>num_volumes.
     bind_s (load_tables e) (\<lambda>(grad_mrtrix, grad_fsl).
     bind_s (check_tables num_volumes grad_mrtrix grad_fsl) (\<lambda>_.
     bind_s (make_mask e) (\<lambda>_.
     bind_s (search e (number_option a) grad_mrtrix grad_fsl candidates []) (\<lambda>lengths.
     bind_s (\<lambda>st. (sort_reverse (interpreter e) lengths, st)) (\<lambda>ranking.
     bind_s (emit (PrintTable ranking)) (\<lambda>_.
     bind_s (export_best e a ranking) (\<lambda>_.
     bind_s (emit Complete) (\<lambda>_.
     ok ranking)))))))))"

subsection \<open>The transformed tables in the words of the specification\<close>

text \<open>
  Scanner basis: negate the direction column of the flip axis, leave the b-value column
  (column 3) unchanged, then reorder the three direction columns by the permutation and
  keep the b-value column last. Image basis: negate the row of the flip axis, then
  reorder the three rows by the permutation. No flip: nothing is negated.
\<close>

fun negated_at :: "flip \<Rightarrow> real list \<Rightarrow> real list" where
  "negated_at FlipNone row = row"
| "negated_at (FlipAxis axis) row = row[axis := - (row ! axis)]"

fun spec_scanner_row :: "flip \<Rightarrow> permutation \<Rightarrow> real list \<Rightarrow> real list" where
  "spec_scanner_row flip (p0, p1, p2) row =
     [negated_at flip row ! p0, negated_at flip row ! p1, negated_at flip row ! p2, row ! 3]"

definition spec_scanner :: "flip \<Rightarrow> permutation \<Rightarrow> real list list \<Rightarrow> real list list" where
  "spec_scanner flip permutation table = map (spec_scanner_row flip permutation) table"

fun negated_row :: "flip \<Rightarrow> real list list \<Rightarrow> real list list" where
  "negated_row FlipNone table = table"
| "negated_row (FlipAxis axis) table = table[axis := map uminus (table ! axis)]"

fun spec_image :: "flip \<Rightarrow> permutation \<Rightarrow> real list list \<Rightarrow> real list list" where
  "spec_image flip (p0, p1, p2) table =
     [negated_row flip table ! p0, negated_row flip table ! p1, negated_row flip table ! p2]"

fun spec_table :: "candidate \<Rightarrow> real list list \<Rightarrow> real list list \<Rightarrow> real list list" where
  "spec_table (flip, permutation, BasisScanner) combined split = spec_scanner flip permutation combined"
| "spec_table (flip, permutation, BasisImage) combined split = spec_image flip permutation split"

subsection \<open>Keeping the list objects\<close>

text \<open>
  The store of \<open>st'\<close> extends the store of \<open>st\<close>: every list object of \<open>st\<close> is an object
  of \<open>st'\<close> at the same address with the same items.
\<close>

definition store_extends :: "state \<Rightarrow> state \<Rightarrow> bool" where
  "store_extends st st' \<longleftrightarrow> prefix (rows st) (rows st') \<and> prefix (tabs st) (tabs st')"

text \<open>The tractography commands among the events, in order.\<close>

fun tckgen_commands :: "event list \<Rightarrow> string list" where
  "tckgen_commands [] = []"
| "tckgen_commands (Command cmd # evs) =
     (if take 6 cmd = ''tckgen'' then cmd # tckgen_commands evs else tckgen_commands evs)"
| "tckgen_commands (ev # evs) = tckgen_commands evs"

text \<open>The tables written to files among the events, in order, each with the name of its file.\<close>

fun written_tables :: "event list \<Rightarrow> (string \<times> real list list) list" where
  "written_tables [] = []"
| "written_tables (WriteFile name table # evs) = (name, table) # written_tables evs"
| "written_tables (ev # evs) = written_tables evs"

subsection \<open>The order of the ranking\<close>

text \<open>
  The order in which Python 2 compares two lines, as a key in a lexicographic order: the
  mean length, then the flip with every axis below \<^verbatim>\<open>'none'\<close>, then the permutation,
  then the basis with \<^verbatim>\<open>'image'\<close> below \<^verbatim>\<open>'scanner'\<close>.
\<close>

fun flip_key :: "flip \<Rightarrow> nat \<times> nat" where
  "flip_key (FlipAxis axis) = (0, axis)"
| "flip_key FlipNone = (1, 0)"

fun basis_key :: "basis \<Rightarrow> nat" where
  "basis_key BasisImage = 0"
| "basis_key BasisScanner = 1"

fun line_key :: "result \<Rightarrow> real \<times> (nat \<times> nat) \<times> permutation \<times> nat" where
  "line_key (m, flip, permutation, basis) = (m, flip_key flip, permutation, basis_key basis)"

text \<open>Two lines with the same mean length, one with the flip \<^verbatim>\<open>'none'\<close>, one with an axis.\<close>

definition mixed_tie :: "result \<Rightarrow> result \<Rightarrow> bool" where
  "mixed_tie x y \<longleftrightarrow>
     fst x = fst y \<and> ((fst (snd x) = FlipNone) \<noteq> (fst (snd y) = FlipNone))"

subsection \<open>Example runs\<close>

text \<open>
  A command line with the input image only, and a world in which the image has two
  volumes of two by two by two voxels, every command succeeds, and the gradient table has
  the two entries \<open>(1, 0, 0)\<close> and \<open>(0, 1, 0)\<close> with b-value 1000. The interpreter, the
  mean lengths that the statistics command reports and the rows of \<^verbatim>\<open>bvecs\<close> vary.
\<close>

definition example_args :: args where
  "example_args =
     \<lparr>args_input = ''dwi.mif'', args_export_grad_mrtrix = None, args_export_grad_fsl = None,
      args_grad = None, args_fslgrad = None, args_mask = None, args_number = 10000\<rparr>"

definition example_env :: "python \<Rightarrow> (string \<Rightarrow> real) \<Rightarrow> real list list \<Rightarrow> env" where
  "example_env py means split =
     \<lparr>interpreter = py, header_size = (\<lambda>_. [2, 2, 2, 2]), command_ok = (\<lambda>_. True),
      mean_length = means, grad_b = [[1, 0, 0, 1000], [0, 1, 0, 1000]], bvecs = split,
      from_user = (\<lambda>name _. name), to_temp = (\<lambda>name _. name)\<rparr>"

definition example_bvecs :: "real list list" where
  "example_bvecs = [[1, 0], [0, 1], [0, 0]]"

text \<open>Every candidate is reported with the mean length 5.\<close>

definition all_equal :: "string \<Rightarrow> real" where
  "all_equal cmd = 5"



text \<open>The store after the example tables are loaded: the combined table at 0, the split at 1.\<close>

definition example_loaded :: state where
  "example_loaded =
     \<lparr>trace = [], files = [],
      rows = [[1, 0, 0, 1000], [0, 1, 0, 1000], [1, 0], [0, 1], [0, 0]],
      tabs = [[0, 1], [2, 3, 4]]\<rparr>"


section \<open>The enumeration of the candidates\<close>

lemma candidates_unfolded:
  "candidates =
    [(FlipNone, (0, 1, 2), BasisScanner), (FlipNone, (0, 1, 2), BasisImage),
     (FlipNone, (0, 2, 1), BasisScanner), (FlipNone, (0, 2, 1), BasisImage),
     (FlipNone, (1, 0, 2), BasisScanner), (FlipNone, (1, 0, 2), BasisImage),
     (FlipNone, (1, 2, 0), BasisScanner), (FlipNone, (1, 2, 0), BasisImage),
     (FlipNone, (2, 0, 1), BasisScanner), (FlipNone, (2, 0, 1), BasisImage),
     (FlipNone, (2, 1, 0), BasisScanner), (FlipNone, (2, 1, 0), BasisImage),
     (FlipAxis 0, (0, 1, 2), BasisScanner), (FlipAxis 0, (0, 1, 2), BasisImage),
     (FlipAxis 0, (0, 2, 1), BasisScanner), (FlipAxis 0, (0, 2, 1), BasisImage),
     (FlipAxis 0, (1, 0, 2), BasisScanner), (FlipAxis 0, (1, 0, 2), BasisImage),
     (FlipAxis 0, (1, 2, 0), BasisScanner), (FlipAxis 0, (1, 2, 0), BasisImage),
     (FlipAxis 0, (2, 0, 1), BasisScanner), (FlipAxis 0, (2, 0, 1), BasisImage),
     (FlipAxis 0, (2, 1, 0), BasisScanner), (FlipAxis 0, (2, 1, 0), BasisImage),
     (FlipAxis 1, (0, 1, 2), BasisScanner), (FlipAxis 1, (0, 1, 2), BasisImage),
     (FlipAxis 1, (0, 2, 1), BasisScanner), (FlipAxis 1, (0, 2, 1), BasisImage),
     (FlipAxis 1, (1, 0, 2), BasisScanner), (FlipAxis 1, (1, 0, 2), BasisImage),
     (FlipAxis 1, (1, 2, 0), BasisScanner), (FlipAxis 1, (1, 2, 0), BasisImage),
     (FlipAxis 1, (2, 0, 1), BasisScanner), (FlipAxis 1, (2, 0, 1), BasisImage),
     (FlipAxis 1, (2, 1, 0), BasisScanner), (FlipAxis 1, (2, 1, 0), BasisImage),
     (FlipAxis 2, (0, 1, 2), BasisScanner), (FlipAxis 2, (0, 1, 2), BasisImage),
     (FlipAxis 2, (0, 2, 1), BasisScanner), (FlipAxis 2, (0, 2, 1), BasisImage),
     (FlipAxis 2, (1, 0, 2), BasisScanner), (FlipAxis 2, (1, 0, 2), BasisImage),
     (FlipAxis 2, (1, 2, 0), BasisScanner), (FlipAxis 2, (1, 2, 0), BasisImage),
     (FlipAxis 2, (2, 0, 1), BasisScanner), (FlipAxis 2, (2, 0, 1), BasisImage),
     (FlipAxis 2, (2, 1, 0), BasisScanner), (FlipAxis 2, (2, 1, 0), BasisImage)]"
  by (simp add: candidates_def axis_flips_def axis_permutations_def grad_basis_def)

lemma length_candidates: "length candidates = 48"
  by (simp add: candidates_unfolded)

lemma distinct_candidates: "distinct candidates"
  by (simp add: candidates_unfolded)

lemma set_axis_flips: "set axis_flips = {FlipNone, FlipAxis 0, FlipAxis 1, FlipAxis 2}"
  by (simp add: axis_flips_def)

lemma set_grad_basis: "set grad_basis = {BasisScanner, BasisImage}"
  by (auto simp: grad_basis_def)

lemma below_three: "(n::nat) \<in> {0, 1, 2} \<longleftrightarrow> n < 3"
  by auto

lemma set_axis_permutations: "set axis_permutations = permutations_012"
proof (rule set_eqI)
  fix p :: permutation
  obtain a b c where p: "p = (a, b, c)" by (cases p) auto
  show "p \<in> set axis_permutations \<longleftrightarrow> p \<in> permutations_012"
  proof
    assume "p \<in> set axis_permutations"
    then show "p \<in> permutations_012"
      by (auto simp: axis_permutations_def permutations_012_def)
  next
    assume "p \<in> permutations_012"
    then have eq: "{a, b, c} = {0, 1, 2}"
      by (simp add: p permutations_012_def)
    then have "a \<in> {0, 1, 2}" "b \<in> {0, 1, 2}" "c \<in> {0, 1, 2}"
      by blast+
    then have bounds: "a < 3" "b < 3" "c < 3"
      by (simp_all only: below_three)
    have "0 \<in> {a, b, c}" "1 \<in> {a, b, c}" "2 \<in> {a, b, c}"
      using eq by simp_all
    with bounds show "p \<in> set axis_permutations"
      unfolding p axis_permutations_def by simp presburger
  qed
qed

lemma set_candidates:
  "set candidates = set axis_flips \<times> set axis_permutations \<times> set grad_basis"
  by (auto simp: candidates_def)

lemma candidates_order:
  assumes "i < 4" "j < 6" "k < 2"
  shows "candidates ! (12 * i + 2 * j + k) = (axis_flips ! i, axis_permutations ! j, grad_basis ! k)"
proof -
  have i: "i \<in> {0, 1, 2, 3}" using assms(1) by auto
  have j: "j \<in> {0, 1, 2, 3, 4, 5}" using assms(2) by auto
  have k: "k \<in> {0, 1}" using assms(3) by auto
  show ?thesis
    using i j k
    by (auto simp: candidates_unfolded axis_flips_def axis_permutations_def grad_basis_def)
qed

text \<open>
  C2. The enumeration has exactly 48 candidates, pairwise distinct; as a set they are the
  product of the four flips, the six permutations of \<open>(0, 1, 2)\<close> and the two bases; and
  they come with the flip as the outer loop, the permutation as the middle loop and the
  basis as the inner loop: candidate number \<open>12 i + 2 j + k\<close> has the \<open>i\<close>-th flip, the
  \<open>j\<close>-th permutation and the \<open>k\<close>-th basis.
\<close>

theorem candidates_enumeration:
  "length candidates = 48 \<and> distinct candidates \<and>
   set candidates = {FlipNone, FlipAxis 0, FlipAxis 1, FlipAxis 2} \<times> permutations_012 \<times> {BasisScanner, BasisImage} \<and>
   (\<forall>i<4. \<forall>j<6. \<forall>k<2.
      candidates ! (12 * i + 2 * j + k) = (axis_flips ! i, axis_permutations ! j, grad_basis ! k))"
  using length_candidates distinct_candidates set_candidates candidates_order
  by (simp only: set_axis_flips set_axis_permutations set_grad_basis) blast

theorem candidates_enumeration_witness:
  "candidates ! 15 = (FlipAxis 0, (0, 2, 1), BasisImage) \<and> length candidates = 48"
proof -
  have ord: "\<forall>i<4. \<forall>j<6. \<forall>k<2.
      candidates ! (12 * i + 2 * j + k) = (axis_flips ! i, axis_permutations ! j, grad_basis ! k)"
    and len: "length candidates = 48"
    using candidates_enumeration by blast+
  have "candidates ! 15 = (axis_flips ! 1, axis_permutations ! 1, grad_basis ! 1)"
    using ord [rule_format, of 1 1 1] by simp
  then show ?thesis
    using len by (simp add: axis_flips_def axis_permutations_def grad_basis_def)
qed

section \<open>The list objects and the transformed tables\<close>


lemma store_extends_refl: "store_extends st st"
  by (simp add: store_extends_def)

lemma store_extends_trans:
  "store_extends st st1 \<Longrightarrow> store_extends st1 st2 \<Longrightarrow> store_extends st st2"
  unfolding store_extends_def by (meson prefix_order.trans)

lemma prefix_nth: "prefix xs ys \<Longrightarrow> i < length xs \<Longrightarrow> ys ! i = xs ! i"
  by (auto simp: prefix_def nth_append)

lemma store_extends_row: "store_extends st st' \<Longrightarrow> r < length (rows st) \<Longrightarrow> rows st' ! r = rows st ! r"
  by (simp add: store_extends_def prefix_nth)

lemma store_extends_tab: "store_extends st st' \<Longrightarrow> g < length (tabs st) \<Longrightarrow> tabs st' ! g = tabs st ! g"
  by (simp add: store_extends_def prefix_nth)

lemma store_extends_valid:
  assumes "store_extends st st'" "valid_table st g"
  shows "valid_table st' g" "read_table st' g = read_table st g"
proof -
  have g: "g < length (tabs st)" and rs: "\<forall>r\<in>set (tabs st ! g). r < length (rows st)"
    using assms(2) by (auto simp: valid_table_def list_all_iff)
  have t: "tabs st' ! g = tabs st ! g" using assms(1) g by (rule store_extends_tab)
  have len: "length (rows st) \<le> length (rows st')" "length (tabs st) \<le> length (tabs st')"
    using assms(1) by (auto simp: store_extends_def prefix_length_le)
  show "valid_table st' g"
    using g rs len by (auto simp: valid_table_def list_all_iff t)
  show "read_table st' g = read_table st g"
    using rs assms(1) by (simp add: read_table_def t store_extends_row)
qed

lemma for_rows_frame:
  "for_rows f rs st = (res, st') \<Longrightarrow>
     prefix (rows st) (rows st') \<and> tabs st' = tabs st \<and> trace st' = trace st \<and> files st' = files st"
proof (induction rs arbitrary: st res st')
  case Nil
  then show ?case by auto
next
  case (Cons r rs)
  show ?case
  proof (cases "f st r")
    case (Inl e)
    with Cons.prems show ?thesis by auto
  next
    case (Inr xs)
    obtain res1 st1 where rec: "for_rows f rs (st\<lparr>rows := rows st @ [xs]\<rparr>) = (res1, st1)"
      by (cases "for_rows f rs (st\<lparr>rows := rows st @ [xs]\<rparr>)") auto
    from Cons.IH [OF rec] have "prefix (rows st @ [xs]) (rows st1)" "tabs st1 = tabs st"
      "trace st1 = trace st" "files st1 = files st" by simp_all
    moreover have "st' = st1" using Cons.prems Inr rec by (auto split: sum.splits)
    ultimately show ?thesis by (auto dest: append_prefixD)
  qed
qed

lemma for_rows_ok:
  assumes "\<And>(st'::state) r. r \<in> set rs \<Longrightarrow> prefix (rows st) (rows st') \<Longrightarrow> tabs st' = tabs st \<Longrightarrow> f st' r = Inr (G r)"
  shows "for_rows f rs st =
    (Inr [length (rows st) ..< length (rows st) + length rs], st\<lparr>rows := rows st @ map G rs\<rparr>)"
  using assms
proof (induction rs arbitrary: st)
  case Nil
  then show ?case by simp
next
  case (Cons r rs)
  have here: "f st r = Inr (G r)" using Cons.prems [of r st] by simp
  let ?st1 = "st\<lparr>rows := rows st @ [G r]\<rparr>"
  have "for_rows f rs ?st1 =
    (Inr [length (rows ?st1) ..< length (rows ?st1) + length rs], ?st1\<lparr>rows := rows ?st1 @ map G rs\<rparr>)"
  proof (rule Cons.IH)
    fix st' :: state and r'
    assume "r' \<in> set rs" "prefix (rows ?st1) (rows st')" "tabs st' = tabs ?st1"
    then show "f st' r' = Inr (G r')"
      using Cons.prems [of r' st'] by (auto dest: append_prefixD)
  qed
  moreover have "[length (rows st) ..< length (rows st) + length (r # rs)] =
      length (rows st) # [length (rows ?st1) ..< length (rows ?st1) + length rs]"
    using upt_conv_Cons [of "length (rows st)" "length (rows st) + length (r # rs)"] by simp
  ultimately show ?case
    using here by simp
qed


lemma map_nth_appended:
  "map (\<lambda>a. (xs @ ys) ! a) [length xs ..< length xs + length ys] = ys"
  by (rule nth_equalityI) (simp_all add: nth_append)

lemma comprehension_table:
  fixes st :: state
  assumes valid: "valid_table st g"
    and f: "\<And>(st'::state) r. r \<in> set (tabs st ! g) \<Longrightarrow> store_extends st st' \<Longrightarrow>
              f st' r = Inr (F (rows st ! r))"
  shows "\<exists>g' st'. comprehension f g st = (Inr g', st') \<and> valid_table st' g' \<and>
           read_table st' g' = map F (read_table st g) \<and> store_extends st st' \<and>
           trace st' = trace st \<and> files st' = files st"
proof -
  let ?rs = "tabs st ! g"
  let ?G = "\<lambda>r. F (rows st ! r)"
  let ?n = "length (rows st)"
  have "for_rows f ?rs st = (Inr [?n ..< ?n + length ?rs], st\<lparr>rows := rows st @ map ?G ?rs\<rparr>)"
  proof (rule for_rows_ok)
    fix st' :: state and r
    assume "r \<in> set ?rs" "prefix (rows st) (rows st')" "tabs st' = tabs st"
    then show "f st' r = Inr (F (rows st ! r))"
      using f [of r st'] by (simp add: store_extends_def)
  qed
  then have run: "comprehension f g st =
      (Inr (length (tabs st)),
       st\<lparr>rows := rows st @ map ?G ?rs, tabs := tabs st @ [[?n ..< ?n + length ?rs]]\<rparr>)"
    by (simp add: comprehension_def bind_s_def new_tab_def)
  let ?st' = "st\<lparr>rows := rows st @ map ?G ?rs, tabs := tabs st @ [[?n ..< ?n + length ?rs]]\<rparr>"
  have "read_table ?st' (length (tabs st)) = map ?G ?rs"
    using map_nth_appended [of "rows st" "map ?G ?rs"] by (simp add: read_table_def)
  moreover have "valid_table ?st' (length (tabs st))"
    by (simp add: valid_table_def list_all_iff)
  moreover have "store_extends st ?st'"
    by (simp add: store_extends_def)
  ultimately show ?thesis
    using run by (simp add: read_table_def)
qed


lemma at_least_four:
  "4 \<le> length (row :: 'a list) \<Longrightarrow> \<exists>a b c d rest. row = a # b # c # d # rest"
  by (cases row; simp; cases "tl row"; simp; cases "tl (tl row)"; simp; cases "tl (tl (tl row))"; simp)

lemma times_multiplier_row:
  assumes "axis < 3" "4 \<le> length row"
  shows "map (\<lambda>(r, m). r * m) (zip row ([1, 1, 1, 1][axis := - 1])) =
         take 4 (negated_at (FlipAxis axis) row)"
proof -
  obtain a b c d rest where row: "row = a # b # c # d # rest"
    using at_least_four [OF assms(2)] by blast
  have "axis = 0 \<or> axis = 1 \<or> axis = 2" using assms(1) by auto
  then show ?thesis
    by (auto simp: row)
qed


lemma copy_copy_run:
  "copy_copy g st = (Inr (length (tabs st)), st\<lparr>tabs := tabs st @ [tabs st ! g]\<rparr>)"
  by (simp add: copy_copy_def new_tab_def)

lemma copied_table:
  assumes "valid_table st g"
  shows "valid_table (st\<lparr>tabs := tabs st @ [tabs st ! g]\<rparr>) (length (tabs st))"
    and "read_table (st\<lparr>tabs := tabs st @ [tabs st ! g]\<rparr>) (length (tabs st)) = read_table st g"
    and "store_extends st (st\<lparr>tabs := tabs st @ [tabs st ! g]\<rparr>)"
  using assms by (simp_all add: valid_table_def read_table_def store_extends_def)

lemma permuted_row_ok:
  fixes st :: state
  assumes "p0 < 3" "p1 < 3" "p2 < 3" "4 \<le> length (rows st ! r)"
  shows "permuted_row (p0, p1, p2) st r =
    Inr [rows st ! r ! p0, rows st ! r ! p1, rows st ! r ! p2, rows st ! r ! 3]"
  using assms by (simp add: permuted_row_def Let_def)

lemma scanner_permute:
  fixes st :: state
  assumes valid: "valid_table st g"
    and wide: "\<forall>row\<in>set (read_table st g). 4 \<le> length row"
    and p: "p0 < 3" "p1 < 3" "p2 < 3"
  shows "\<exists>g' st'. comprehension (permuted_row (p0, p1, p2)) g st = (Inr g', st') \<and>
           valid_table st' g' \<and>
           read_table st' g' = map (\<lambda>xs. [xs ! p0, xs ! p1, xs ! p2, xs ! 3]) (read_table st g) \<and>
           store_extends st st' \<and> trace st' = trace st \<and> files st' = files st"
proof (rule comprehension_table [OF valid])
  fix st' :: state and r
  assume r: "r \<in> set (tabs st ! g)" and ext: "store_extends st st'"
  have "r < length (rows st)"
    using valid r by (auto simp: valid_table_def list_all_iff)
  then have same: "rows st' ! r = rows st ! r"
    using ext by (simp add: store_extends_row)
  have "4 \<le> length (rows st ! r)"
    using wide r by (simp add: read_table_def)
  then show "permuted_row (p0, p1, p2) st' r =
      Inr [rows st ! r ! p0, rows st ! r ! p1, rows st ! r ! p2, rows st ! r ! 3]"
    using permuted_row_ok [of p0 p1 p2 st' r] p same by simp
qed

lemma scanner_flip:
  fixes st :: state
  assumes valid: "valid_table st g"
    and wide: "\<forall>row\<in>set (read_table st g). 4 \<le> length row"
    and axis: "axis < 3"
  shows "\<exists>g' st'.
           bind_s (new_row [1, 1, 1, 1]) (\<lambda>multiplier.
             bind_s (set_row_item multiplier axis (- 1)) (\<lambda>_.
               comprehension (times_multiplier multiplier) g)) st = (Inr g', st') \<and>
           valid_table st' g' \<and>
           read_table st' g' = map (\<lambda>row. take 4 (negated_at (FlipAxis axis) row)) (read_table st g) \<and>
           store_extends st st' \<and> trace st' = trace st \<and> files st' = files st"
proof -
  let ?m = "length (rows st)"
  let ?mult = "[1, 1, 1, 1][axis := - 1] :: real list"
  let ?st1 = "st\<lparr>rows := rows st @ [?mult]\<rparr>"
  have start: "bind_s (new_row [1, 1, 1, 1]) (\<lambda>multiplier.
             bind_s (set_row_item multiplier axis (- 1)) (\<lambda>_.
               comprehension (times_multiplier multiplier) g)) st =
        comprehension (times_multiplier ?m) g ?st1"
    using axis by (simp add: bind_s_def new_row_def set_row_item_def)
  have ext1: "store_extends st ?st1"
    by (simp add: store_extends_def)
  have valid1: "valid_table ?st1 g" and read1: "read_table ?st1 g = read_table st g"
    using store_extends_valid [OF ext1 valid] by simp_all
  have "\<exists>g' st'. comprehension (times_multiplier ?m) g ?st1 = (Inr g', st') \<and> valid_table st' g' \<and>
           read_table st' g' = map (\<lambda>xs. map (\<lambda>(r, m). r * m) (zip xs ?mult)) (read_table ?st1 g) \<and>
           store_extends ?st1 st' \<and> trace st' = trace ?st1 \<and> files st' = files ?st1"
  proof (rule comprehension_table [OF valid1])
    fix st' :: state and r
    assume r: "r \<in> set (tabs ?st1 ! g)" and ext: "store_extends ?st1 st'"
    have "r < length (rows ?st1)"
      using valid1 r by (auto simp: valid_table_def list_all_iff)
    then have "rows st' ! r = rows ?st1 ! r"
      using ext by (simp add: store_extends_row)
    moreover have "rows st' ! ?m = ?mult"
      using store_extends_row [OF ext, of ?m] by simp
    ultimately show "times_multiplier ?m st' r =
        Inr (map (\<lambda>(r, m). r * m) (zip (rows ?st1 ! r) ?mult))"
      by (simp add: times_multiplier_def)
  qed
  then obtain g' st' where run: "comprehension (times_multiplier ?m) g ?st1 = (Inr g', st')"
    and v: "valid_table st' g'"
    and rd: "read_table st' g' = map (\<lambda>xs. map (\<lambda>(r, m). r * m) (zip xs ?mult)) (read_table st g)"
    and ext: "store_extends ?st1 st'" and tr: "trace st' = trace st" "files st' = files st"
    using read1 by auto
  have "map (\<lambda>xs. map (\<lambda>(r, m). r * m) (zip xs ?mult)) (read_table st g) =
        map (\<lambda>row. take 4 (negated_at (FlipAxis axis) row)) (read_table st g)"
    using wide times_multiplier_row [OF axis] by (intro map_cong) auto
  with rd have rd': "read_table st' g' = map (\<lambda>row. take 4 (negated_at (FlipAxis axis) row)) (read_table st g)"
    by simp
  show ?thesis
    using start run v rd' store_extends_trans [OF ext1 ext] tr by auto
qed


lemma axis_permutations_bound:
  "(p0, p1, p2) \<in> set axis_permutations \<Longrightarrow> p0 < 3 \<and> p1 < 3 \<and> p2 < 3"
  by (auto simp: axis_permutations_def)

lemma axis_flips_bound: "FlipAxis axis \<in> set axis_flips \<Longrightarrow> axis < 3"
  by (auto simp: axis_flips_def)

lemma spec_scanner_row_take:
  assumes "flip \<in> set axis_flips" "p0 < 3" "p1 < 3" "p2 < 3" "4 \<le> length row"
  shows "(\<lambda>xs. [xs ! p0, xs ! p1, xs ! p2, xs ! 3])
           (case flip of FlipNone \<Rightarrow> row | FlipAxis axis \<Rightarrow> take 4 (negated_at flip row)) =
         spec_scanner_row flip (p0, p1, p2) row"
proof (cases flip)
  case FlipNone
  then show ?thesis using assms by simp
next
  case (FlipAxis axis)
  then have "axis < 3" using assms(1) axis_flips_bound by blast
  then show ?thesis using assms FlipAxis by simp
qed

lemma scanner_grad_table:
  fixes st :: state
  assumes valid: "valid_table st grad_mrtrix"
    and wide: "\<forall>row\<in>set (read_table st grad_mrtrix). 4 \<le> length row"
    and flip: "flip \<in> set axis_flips"
    and perm: "permutation \<in> set axis_permutations"
  shows "\<exists>g' st'. scanner_grad flip permutation grad_mrtrix st = (Inr g', st') \<and>
           valid_table st' g' \<and>
           read_table st' g' = spec_scanner flip permutation (read_table st grad_mrtrix) \<and>
           store_extends st st' \<and> trace st' = trace st \<and> files st' = files st"
proof -
  obtain p0 p1 p2 where p: "permutation = (p0, p1, p2)" by (cases permutation) auto
  have pb: "p0 < 3" "p1 < 3" "p2 < 3"
    using perm axis_permutations_bound unfolding p by blast+
  let ?M = "read_table st grad_mrtrix"
  let ?g1 = "length (tabs st)"
  let ?st1 = "st\<lparr>tabs := tabs st @ [tabs st ! grad_mrtrix]\<rparr>"
  note c = copied_table [OF valid]
  have "\<exists>g2 st2. (case flip of
               FlipNone \<Rightarrow> ok ?g1
             | FlipAxis axis \<Rightarrow>
                 bind_s (new_row [1, 1, 1, 1]) (\<lambda>multiplier.
                 bind_s (set_row_item multiplier axis (- 1)) (\<lambda>_.
                 comprehension (times_multiplier multiplier) ?g1))) ?st1 = (Inr g2, st2) \<and>
           valid_table st2 g2 \<and>
           read_table st2 g2 =
             map (\<lambda>row. case flip of FlipNone \<Rightarrow> row | FlipAxis axis \<Rightarrow> take 4 (negated_at flip row)) ?M \<and>
           store_extends ?st1 st2 \<and> trace st2 = trace st \<and> files st2 = files st"
  proof (cases flip)
    case FlipNone
    show ?thesis
      using FlipNone c by (simp add: ok_def store_extends_refl)
  next
    case (FlipAxis axis)
    then have "axis < 3" using flip axis_flips_bound by blast
    from scanner_flip [OF c(1) _ this] wide c(2) show ?thesis
      using FlipAxis by simp
  qed
  then obtain g2 st2 where
    flipped: "(case flip of
               FlipNone \<Rightarrow> ok ?g1
             | FlipAxis axis \<Rightarrow>
                 bind_s (new_row [1, 1, 1, 1]) (\<lambda>multiplier.
                 bind_s (set_row_item multiplier axis (- 1)) (\<lambda>_.
                 comprehension (times_multiplier multiplier) ?g1))) ?st1 = (Inr g2, st2)"
    and v2: "valid_table st2 g2"
    and r2: "read_table st2 g2 =
             map (\<lambda>row. case flip of FlipNone \<Rightarrow> row | FlipAxis axis \<Rightarrow> take 4 (negated_at flip row)) ?M"
    and e2: "store_extends ?st1 st2" and t2: "trace st2 = trace st" "files st2 = files st"
    by blast
  have wide2: "\<forall>row\<in>set (read_table st2 g2). 4 \<le> length row"
    using wide flip by (cases flip) (auto simp: r2 dest: axis_flips_bound)
  from scanner_permute [OF v2 wide2 pb] obtain g3 st3 where
    permuted: "comprehension (permuted_row (p0, p1, p2)) g2 st2 = (Inr g3, st3)"
    and v3: "valid_table st3 g3"
    and r3: "read_table st3 g3 = map (\<lambda>xs. [xs ! p0, xs ! p1, xs ! p2, xs ! 3]) (read_table st2 g2)"
    and e3: "store_extends st2 st3" and t3: "trace st3 = trace st2" "files st3 = files st2"
    by blast
  have run: "scanner_grad flip permutation grad_mrtrix st = (Inr g3, st3)"
    using flipped permuted
    by (simp add: scanner_grad_def p bind_s_def copy_copy_run)
  have "read_table st3 g3 = spec_scanner flip permutation ?M"
    unfolding r3 r2 spec_scanner_def p map_map comp_def
    using wide spec_scanner_row_take [OF flip pb] by (intro map_cong) auto
  moreover have "store_extends st st3"
    using c(3) e2 e3 store_extends_trans by blast
  ultimately show ?thesis
    using run v3 t2 t3 by simp
qed


lemma exactly_three: "length (t :: 'a list) = 3 \<Longrightarrow> \<exists>a b c. t = [a, b, c]"
  by (cases t; simp; cases "tl t"; simp; cases "tl (tl t)"; simp)

lemma image_grad_table:
  fixes st :: state
  assumes valid: "valid_table st grad_fsl"
    and three: "length (read_table st grad_fsl) = 3"
    and flip: "flip \<in> set axis_flips"
    and perm: "permutation \<in> set axis_permutations"
  shows "\<exists>g' st'. image_grad flip permutation grad_fsl st = (Inr g', st') \<and>
           valid_table st' g' \<and>
           read_table st' g' = spec_image flip permutation (read_table st grad_fsl) \<and>
           store_extends st st' \<and> trace st' = trace st \<and> files st' = files st"
proof -
  obtain a b c where t: "tabs st ! grad_fsl = [a, b, c]"
    using three exactly_three [of "tabs st ! grad_fsl"] by (auto simp: read_table_def)
  have abc: "a < length (rows st)" "b < length (rows st)" "c < length (rows st)"
    using valid by (simp_all add: valid_table_def t)
  have g: "grad_fsl < length (tabs st)"
    using valid by (simp add: valid_table_def)
  show ?thesis
    using flip perm abc
    by (auto simp: axis_flips_def axis_permutations_def image_grad_def bind_s_def copy_copy_run
        tab_item_def set_tab_item_def new_row_def new_tab_def ok_def t
        valid_table_def read_table_def store_extends_def nth_append)
qed


section \<open>The search keeps the loaded tables\<close>


lemma comprehension_frame:
  "comprehension f g st = (res, st') \<Longrightarrow>
     store_extends st st' \<and> trace st' = trace st \<and> files st' = files st"
proof -
  assume run: "comprehension f g st = (res, st')"
  obtain res1 st1 where rows: "for_rows f (tabs st ! g) st = (res1, st1)"
    by (cases "for_rows f (tabs st ! g) st") auto
  note fr = for_rows_frame [OF rows]
  show ?thesis
    using run rows fr
    by (cases res1) (auto simp: comprehension_def bind_s_def new_tab_def store_extends_def)
qed

lemma scanner_grad_frame:
  "scanner_grad flip permutation g st = (res, st') \<Longrightarrow>
     store_extends st st' \<and> trace st' = trace st \<and> files st' = files st"
proof -
  assume run: "scanner_grad flip permutation g st = (res, st')"
  let ?st1 = "st\<lparr>tabs := tabs st @ [tabs st ! g]\<rparr>"
  have e1: "store_extends st ?st1" by (simp add: store_extends_def)
  show ?thesis
  proof (cases flip)
    case FlipNone
    then have "comprehension (permuted_row permutation) (length (tabs st)) ?st1 = (res, st')"
      using run by (simp add: scanner_grad_def bind_s_def copy_copy_run ok_def)
    from comprehension_frame [OF this] e1 show ?thesis
      by (auto intro: store_extends_trans)
  next
    case (FlipAxis axis)
    let ?st2 = "?st1\<lparr>rows := rows st @ [[1, 1, 1, 1]]\<rparr>"
    show ?thesis
    proof (cases "axis < 4")
      case False
      then have "st' = ?st2"
        using run FlipAxis
        by (auto simp: scanner_grad_def bind_s_def copy_copy_run new_row_def set_row_item_def)
      then show ?thesis by (simp add: store_extends_def)
    next
      case True
      let ?st3 = "?st1\<lparr>rows := rows st @ [[1, 1, 1, 1][axis := - 1]]\<rparr>"
      have e3: "store_extends st ?st3" by (simp add: store_extends_def)
      obtain res4 st4 where
        c1: "comprehension (times_multiplier (length (rows st))) (length (tabs st)) ?st3 = (res4, st4)"
        by (cases "comprehension (times_multiplier (length (rows st))) (length (tabs st)) ?st3") auto
      note f4 = comprehension_frame [OF c1]
      show ?thesis
      proof (cases res4)
        case (Inl err)
        then have "st' = st4"
          using run FlipAxis True c1
          by (auto simp: scanner_grad_def bind_s_def copy_copy_run new_row_def set_row_item_def)
        then show ?thesis using f4 e3 by (auto intro: store_extends_trans)
      next
        case (Inr g2)
        then have "comprehension (permuted_row permutation) g2 st4 = (res, st')"
          using run FlipAxis True c1
          by (auto simp: scanner_grad_def bind_s_def copy_copy_run new_row_def set_row_item_def)
        from comprehension_frame [OF this] f4 e3 show ?thesis
          by (auto intro: store_extends_trans)
      qed
    qed
  qed
qed

lemma image_grad_frame:
  "image_grad flip permutation g st = (res, st') \<Longrightarrow>
     store_extends st st' \<and> trace st' = trace st \<and> files st' = files st"
  by (cases flip; cases permutation)
     (auto simp: image_grad_def bind_s_def copy_copy_run tab_item_def set_tab_item_def new_row_def
        new_tab_def ok_def store_extends_def split: if_splits)


lemma make_grad_frame:
  "make_grad c grad_mrtrix grad_fsl st = (res, st') \<Longrightarrow>
     store_extends st st' \<and> trace st' = trace st \<and> files st' = files st"
  unfolding make_grad_def
  by (cases c; cases "snd (snd c)") (auto dest: scanner_grad_frame image_grad_frame)

lemma write_grad_frame:
  "write_grad c grad_mrtrix grad_fsl st = (res, st') \<Longrightarrow> store_extends st st'"
proof -
  assume run: "write_grad c grad_mrtrix grad_fsl st = (res, st')"
  obtain res1 st1 where m: "make_grad c grad_mrtrix grad_fsl st = (res1, st1)"
    by (cases "make_grad c grad_mrtrix grad_fsl st") auto
  from make_grad_frame [OF m] run m show ?thesis
    by (cases res1) (auto simp: write_grad_def bind_s_def write_table_def store_extends_def)
qed

lemma run_command_store:
  "run_command e cmd outputs st = (res, st') \<Longrightarrow> rows st' = rows st \<and> tabs st' = tabs st"
  by (auto simp: run_command_def split: if_splits)

lemma candidate_step_frame:
  "candidate_step e number_opt grad_mrtrix grad_fsl c st = (res, st') \<Longrightarrow> store_extends st st'"
proof -
  assume run: "candidate_step e number_opt grad_mrtrix grad_fsl c st = (res, st')"
  obtain res1 st1 where w: "write_grad c grad_mrtrix grad_fsl st = (res1, st1)"
    by (cases "write_grad c grad_mrtrix grad_fsl st") auto
  have "rows st' = rows st1 \<and> tabs st' = tabs st1"
    using run w
    by (cases res1)
       (auto simp: candidate_step_def bind_s_def run_command_def ok_def split: if_splits)
  with write_grad_frame [OF w] show ?thesis
    by (simp add: store_extends_def)
qed

lemma search_frame:
  "search e number_opt grad_mrtrix grad_fsl cs lengths st = (res, st') \<Longrightarrow> store_extends st st'"
proof (induction cs arbitrary: lengths st)
  case Nil
  then show ?case by (auto simp: store_extends_refl)
next
  case (Cons c cs)
  obtain res1 st1 where step: "candidate_step e number_opt grad_mrtrix grad_fsl c st = (res1, st1)"
    by (cases "candidate_step e number_opt grad_mrtrix grad_fsl c st") auto
  note e1 = candidate_step_frame [OF step]
  show ?case
  proof (cases res1)
    case (Inl err)
    then show ?thesis using Cons.prems step e1 by auto
  next
    case (Inr line)
    then have "search e number_opt grad_mrtrix grad_fsl cs (lengths @ [line]) st1 = (res, st')"
      using Cons.prems step by simp
    from Cons.IH [OF this] e1 show ?thesis
      by (rule store_extends_trans [rotated])
  qed
qed

lemma write_grad_table:
  fixes st :: state
  assumes c: "c \<in> set candidates"
    and valid: "valid_table st grad_mrtrix" "valid_table st grad_fsl"
    and wide: "\<forall>row\<in>set (read_table st grad_mrtrix). 4 \<le> length row"
    and three: "length (read_table st grad_fsl) = 3"
  shows "\<exists>st'. write_grad c grad_mrtrix grad_fsl st = (Inr (), st') \<and>
           trace st' = trace st @ [WriteFile (grad_path c)
             (spec_table c (read_table st grad_mrtrix) (read_table st grad_fsl))] \<and>
           files st' = files st @ [grad_path c] \<and> store_extends st st'"
proof -
  obtain flip permutation basis where cc: "c = (flip, permutation, basis)"
    by (cases c) auto
  have fp: "flip \<in> set axis_flips" "permutation \<in> set axis_permutations"
    using c by (auto simp: cc set_candidates)
  have "\<exists>g' st'. make_grad c grad_mrtrix grad_fsl st = (Inr g', st') \<and>
           read_table st' g' = spec_table c (read_table st grad_mrtrix) (read_table st grad_fsl) \<and>
           store_extends st st' \<and> trace st' = trace st \<and> files st' = files st"
  proof (cases basis)
    case BasisScanner
    from scanner_grad_table [OF valid(1) wide fp] show ?thesis
      by (auto simp: make_grad_def cc BasisScanner)
  next
    case BasisImage
    from image_grad_table [OF valid(2) three fp] show ?thesis
      by (auto simp: make_grad_def cc BasisImage)
  qed
  then obtain g' st1 where m: "make_grad c grad_mrtrix grad_fsl st = (Inr g', st1)"
    and r: "read_table st1 g' = spec_table c (read_table st grad_mrtrix) (read_table st grad_fsl)"
    and e: "store_extends st st1" and t: "trace st1 = trace st" "files st1 = files st"
    by blast
  show ?thesis
    using m r e t by (simp add: write_grad_def bind_s_def write_table_def store_extends_def)
qed


lemma tckgen_commands_append:
  "tckgen_commands (xs @ ys) = tckgen_commands xs @ tckgen_commands ys"
  by (induction xs rule: tckgen_commands.induct) auto

lemma written_tables_append:
  "written_tables (xs @ ys) = written_tables xs @ written_tables ys"
  by (induction xs rule: written_tables.induct) auto

lemma take_tckgen_command: "take 6 (tckgen_command number_opt c) = ''tckgen''"
  by (simp add: tckgen_command_def)

lemma take_tckstats_command: "take 6 (tckstats_command c) \<noteq> ''tckgen''"
  by (simp add: tckstats_command_def)

lemma candidate_step_ok:
  fixes st :: state
  assumes c: "c \<in> set candidates"
    and valid: "valid_table st grad_mrtrix" "valid_table st grad_fsl"
    and wide: "\<forall>row\<in>set (read_table st grad_mrtrix). 4 \<le> length row"
    and three: "length (read_table st grad_fsl) = 3"
    and cmds: "command_ok e (tckgen_command number_opt c)" "command_ok e (tckstats_command c)"
  shows "\<exists>st'. candidate_step e number_opt grad_mrtrix grad_fsl c st =
             (Inr (mean_length e (tckstats_command c), c), st') \<and>
           store_extends st st' \<and>
           trace st' = trace st @
             [WriteFile (grad_path c) (spec_table c (read_table st grad_mrtrix) (read_table st grad_fsl)),
              Command (tckgen_command number_opt c), Command (tckstats_command c)]"
proof -
  from write_grad_table [OF c valid wide three] obtain st1 where
    w: "write_grad c grad_mrtrix grad_fsl st = (Inr (), st1)"
    and t: "trace st1 = trace st @ [WriteFile (grad_path c)
             (spec_table c (read_table st grad_mrtrix) (read_table st grad_fsl))]"
    and e: "store_extends st st1"
    by blast
  show ?thesis
    using w t e cmds
    by (simp add: candidate_step_def bind_s_def run_command_def ok_def store_extends_def)
qed

lemma search_ok:
  fixes st :: state
  assumes cs: "set cs \<subseteq> set candidates"
    and valid: "valid_table st grad_mrtrix" "valid_table st grad_fsl"
    and wide: "\<forall>row\<in>set (read_table st grad_mrtrix). 4 \<le> length row"
    and three: "length (read_table st grad_fsl) = 3"
    and cmds: "\<And>cmd. command_ok e cmd"
  shows "\<exists>st'. search e number_opt grad_mrtrix grad_fsl cs lengths st =
             (Inr (lengths @ map (\<lambda>c. (mean_length e (tckstats_command c), c)) cs), st') \<and>
           store_extends st st' \<and>
           tckgen_commands (trace st') = tckgen_commands (trace st) @ map (tckgen_command number_opt) cs \<and>
           written_tables (trace st') = written_tables (trace st) @
             map (\<lambda>c. (grad_path c, spec_table c (read_table st grad_mrtrix) (read_table st grad_fsl))) cs"
  using cs valid wide three
proof (induction cs arbitrary: lengths st)
  case Nil
  then show ?case by (simp add: store_extends_refl)
next
  case (Cons c cs)
  have c: "c \<in> set candidates" using Cons.prems(1) by simp
  from candidate_step_ok [OF c Cons.prems(2,3,4,5) cmds cmds, of number_opt] obtain st1 where
    step: "candidate_step e number_opt grad_mrtrix grad_fsl c st =
             (Inr (mean_length e (tckstats_command c), c), st1)"
    and e1: "store_extends st st1"
    and t1: "trace st1 = trace st @
             [WriteFile (grad_path c) (spec_table c (read_table st grad_mrtrix) (read_table st grad_fsl)),
              Command (tckgen_command number_opt c), Command (tckstats_command c)]"
    by blast
  have k1: "tckgen_commands (trace st1) = tckgen_commands (trace st) @ [tckgen_command number_opt c]"
    by (simp add: t1 tckgen_commands_append take_tckgen_command take_tckstats_command)
  have w1: "written_tables (trace st1) = written_tables (trace st) @
      [(grad_path c, spec_table c (read_table st grad_mrtrix) (read_table st grad_fsl))]"
    by (simp add: t1 written_tables_append)
  note v1 = store_extends_valid [OF e1 Cons.prems(2)] store_extends_valid [OF e1 Cons.prems(3)]
  have "\<exists>st'. search e number_opt grad_mrtrix grad_fsl cs
             (lengths @ [(mean_length e (tckstats_command c), c)]) st1 =
             (Inr ((lengths @ [(mean_length e (tckstats_command c), c)]) @
                   map (\<lambda>c. (mean_length e (tckstats_command c), c)) cs), st') \<and>
           store_extends st1 st' \<and>
           tckgen_commands (trace st') = tckgen_commands (trace st1) @ map (tckgen_command number_opt) cs \<and>
           written_tables (trace st') = written_tables (trace st1) @
             map (\<lambda>c. (grad_path c, spec_table c (read_table st1 grad_mrtrix) (read_table st1 grad_fsl))) cs"
    using Cons.prems v1 by (intro Cons.IH) simp_all
  then obtain st' where
    rest: "search e number_opt grad_mrtrix grad_fsl cs
             (lengths @ [(mean_length e (tckstats_command c), c)]) st1 =
             (Inr ((lengths @ [(mean_length e (tckstats_command c), c)]) @
                   map (\<lambda>c. (mean_length e (tckstats_command c), c)) cs), st')"
    and e2: "store_extends st1 st'"
    and k2: "tckgen_commands (trace st') = tckgen_commands (trace st1) @ map (tckgen_command number_opt) cs"
    and w2: "written_tables (trace st') = written_tables (trace st1) @
             map (\<lambda>c. (grad_path c, spec_table c (read_table st1 grad_mrtrix) (read_table st1 grad_fsl))) cs"
    by blast
  show ?case
    using step rest store_extends_trans [OF e1 e2] k1 k2 w1 w2 v1(2,4) by simp
qed

lemma new_rows_run:
  "new_rows m st =
     (Inr [length (rows st) ..< length (rows st) + length m], st\<lparr>rows := rows st @ m\<rparr>)"
proof (induction m arbitrary: st)
  case Nil
  then show ?case by simp
next
  case (Cons xs m)
  have "[length (rows st) ..< length (rows st) + length (xs # m)] =
      length (rows st) # [Suc (length (rows st)) ..< Suc (length (rows st)) + length m]"
    using upt_conv_Cons [of "length (rows st)" "length (rows st) + length (xs # m)"] by simp
  then show ?case
    by (simp add: Cons.IH)
qed

lemma load_table_run:
  "load_table m st =
     (Inr (length (tabs st)),
      st\<lparr>rows := rows st @ m,
         tabs := tabs st @ [[length (rows st) ..< length (rows st) + length m]]\<rparr>)"
  by (simp add: load_table_def bind_s_def new_rows_run new_tab_def)

lemma loaded_table:
  fixes st :: state and m :: "real list list"
  defines "st' \<equiv> st\<lparr>rows := rows st @ m,
         tabs := tabs st @ [[length (rows st) ..< length (rows st) + length m]]\<rparr>"
  shows "valid_table st' (length (tabs st))" "read_table st' (length (tabs st)) = m"
    "store_extends st st'"
  using map_nth_appended [of "rows st" m]
  by (simp_all add: st'_def valid_table_def read_table_def store_extends_def list_all_iff)

lemma load_tables_ok:
  "\<exists>grad_mrtrix grad_fsl st'. load_tables e st = (Inr (grad_mrtrix, grad_fsl), st') \<and>
      valid_table st' grad_mrtrix \<and> read_table st' grad_mrtrix = grad_b e \<and>
      valid_table st' grad_fsl \<and> read_table st' grad_fsl = bvecs e \<and>
      trace st' = trace st \<and> files st' = files st"
proof -
  let ?st1 = "st\<lparr>rows := rows st @ grad_b e,
         tabs := tabs st @ [[length (rows st) ..< length (rows st) + length (grad_b e)]]\<rparr>"
  let ?st2 = "?st1\<lparr>rows := rows ?st1 @ bvecs e,
         tabs := tabs ?st1 @ [[length (rows ?st1) ..< length (rows ?st1) + length (bvecs e)]]\<rparr>"
  have run: "load_tables e st = (Inr (length (tabs st), length (tabs ?st1)), ?st2)"
    by (simp add: load_tables_def bind_s_def load_table_run ok_def)
  note l1 = loaded_table [of st "grad_b e"]
  note l2 = loaded_table [of ?st1 "bvecs e"]
  note k = store_extends_valid [OF l2(3) l1(1)]
  show ?thesis
    using run l1 l2 k by (intro exI [of _ "length (tabs st)"] exI [of _ "length (tabs ?st1)"] exI [of _ ?st2]) simp
qed

lemma check_tables_read:
  "check_tables num_volumes grad_mrtrix grad_fsl st =
     (if int (length (read_table st grad_mrtrix)) \<noteq> num_volumes
         \<or> length (read_table st grad_fsl) \<noteq> 3
         \<or> int (length (read_table st grad_fsl ! 0)) \<noteq> num_volumes
      then (Inl GradientTableMismatchError, st) else (Inr (), st))"
  by (auto simp: check_tables_def read_table_def raise_def ok_def)


section \<open>The start of a run\<close>


lemma run_command_quiet:
  assumes "command_ok e cmd" "take 6 cmd \<noteq> ''tckgen''"
  shows "\<exists>st'. run_command e cmd outputs st = (Inr (), st') \<and>
           tckgen_commands (trace st') = tckgen_commands (trace st) \<and>
           written_tables (trace st') = written_tables (trace st) \<and>
           files st' = files st @ outputs"
  using assms by (simp add: run_command_def tckgen_commands_append written_tables_append)

lemma parse_ok:
  assumes "args_grad a = None \<or> args_fslgrad a = None"
    and "args_export_grad_mrtrix a = None \<or> args_export_grad_fsl a = None"
  shows "parse a st = (Inr (), st)"
  using assms by (auto simp: parse_def ok_def)

lemma check_image_ok:
  assumes "length (header_size e (args_input a)) = 4" "min_list (header_size e (args_input a)) \<noteq> 1"
  shows "check_image e a st =
     (Inr (header_size e (args_input a) ! 3), st\<lparr>trace := trace st @ [HeaderField (args_input a) ''size'']\<rparr>)"
  using assms by (simp add: check_image_def bind_s_def emit_def ok_def Let_def)

lemma fill_temp_dir_ok:
  assumes cmds: "\<And>cmd. command_ok e cmd"
  shows "\<exists>st'. fill_temp_dir e a st = (Inr (), st') \<and>
           tckgen_commands (trace st') = tckgen_commands (trace st) \<and>
           written_tables (trace st') = written_tables (trace st)"
  by (auto simp: fill_temp_dir_def bind_s_def make_temp_dir_def run_command_def cmds copy_file_def
      emit_def ok_def tckgen_commands_append written_tables_append split: option.splits)

lemma both_formats_ok:
  assumes cmds: "\<And>cmd. command_ok e cmd"
  shows "\<exists>st'. both_formats e st = (Inr (), st') \<and>
           tckgen_commands (trace st') = tckgen_commands (trace st) \<and>
           written_tables (trace st') = written_tables (trace st)"
  by (auto simp: both_formats_def bind_s_def run_command_def cmds ok_def tckgen_commands_append
      written_tables_append)

lemma make_mask_ok:
  assumes cmds: "\<And>cmd. command_ok e cmd"
  shows "\<exists>st'. make_mask e st = (Inr (), st') \<and>
           tckgen_commands (trace st') = tckgen_commands (trace st) \<and>
           written_tables (trace st') = written_tables (trace st) \<and>
           rows st' = rows st \<and> tabs st' = tabs st"
  by (auto simp: make_mask_def run_command_def cmds ok_def tckgen_commands_append
      written_tables_append)

lemma prepare_ok:
  assumes opts: "args_grad a = None \<or> args_fslgrad a = None"
      "args_export_grad_mrtrix a = None \<or> args_export_grad_fsl a = None"
    and dims: "length (header_size e (args_input a)) = 4" "min_list (header_size e (args_input a)) \<noteq> 1"
    and cmds: "\<And>cmd. command_ok e cmd"
  shows "\<exists>st'. prepare e a st = (Inr (header_size e (args_input a) ! 3), st') \<and>
           tckgen_commands (trace st') = tckgen_commands (trace st) \<and>
           written_tables (trace st') = written_tables (trace st)"
proof -
  let ?st1 = "st\<lparr>trace := trace st @ [HeaderField (args_input a) ''size'']\<rparr>"
  obtain st2 where f: "fill_temp_dir e a ?st1 = (Inr (), st2)"
    and t2: "tckgen_commands (trace st2) = tckgen_commands (trace ?st1)"
      "written_tables (trace st2) = written_tables (trace ?st1)"
    using fill_temp_dir_ok [OF cmds] by blast
  obtain st3 where b: "both_formats e st2 = (Inr (), st3)"
    and t3: "tckgen_commands (trace st3) = tckgen_commands (trace st2)"
      "written_tables (trace st3) = written_tables (trace st2)"
    using both_formats_ok [OF cmds] by blast
  show ?thesis
    using parse_ok [OF opts] check_image_ok [OF dims] f b t2 t3
    by (simp add: prepare_def bind_s_def ok_def tckgen_commands_append written_tables_append)
qed


section \<open>The sort of the ranking\<close>


lemma perm_lt_less: "perm_lt p q \<longleftrightarrow> p < q"
  by (cases p; cases q) auto

lemma str_lt_basis: "str_lt (str_basis b1) (str_basis b2) \<longleftrightarrow> basis_key b1 < basis_key b2"
  by (cases b1; cases b2) simp_all

lemma str_basis_eq: "str_basis b1 = str_basis b2 \<longleftrightarrow> b1 = b2"
  by (cases b1; cases b2) simp_all

lemma basis_key_eq: "basis_key b1 = basis_key b2 \<longleftrightarrow> b1 = b2"
  by (cases b1; cases b2) simp_all

lemma flip_key_eq: "flip_key f1 = flip_key f2 \<longleftrightarrow> f1 = f2"
  by (cases f1; cases f2) simp_all

lemma flip_lt_key: "flip_lt py f1 f2 = Inr r \<Longrightarrow> r = (flip_key f1 < flip_key f2)"
  by (cases py; cases f1; cases f2) auto


lemma line_key_less:
  "line_key (m1, f1, p1, b1) < line_key (m2, f2, p2, b2) \<longleftrightarrow>
     (if m1 \<noteq> m2 then m1 < m2
      else if f1 \<noteq> f2 then flip_key f1 < flip_key f2
      else if p1 \<noteq> p2 then p1 < p2
      else basis_key b1 < basis_key b2)"
proof -
  have lex: "\<And>(a::'a::linorder) (b::'b::linorder) c d.
      (a, b) < (c, d) \<longleftrightarrow> (if a \<noteq> c then a < c else b < d)"
    by auto
  show ?thesis
    unfolding line_key.simps lex flip_key_eq by simp
qed

lemma line_lt_key: "line_lt py x y = Inr r \<Longrightarrow> r = (line_key x < line_key y)"
proof -
  assume run: "line_lt py x y = Inr r"
  obtain m1 f1 p1 b1 where x: "x = (m1, f1, p1, b1)" by (cases x) auto
  obtain m2 f2 p2 b2 where y: "y = (m2, f2, p2, b2)" by (cases y) auto
  show ?thesis
    using run flip_lt_key [of py f1 f2 r] unfolding x y line_key_less
    by (simp add: perm_lt_less str_lt_basis str_basis_eq basis_key_eq split: if_splits)
qed


lemma line_lt_error: "line_lt py x y = Inl err \<Longrightarrow> err = TypeError \<and> py = Python3 \<and> mixed_tie x y"
  by (cases x; cases y; cases py; cases "fst (snd x)"; cases "fst (snd y)")
     (auto simp: mixed_tie_def split: if_splits)

lemma line_lt_Python3_mixed: "mixed_tie x y \<Longrightarrow> line_lt Python3 x y = Inl TypeError"
  by (cases x; cases y; cases "fst (snd x)"; cases "fst (snd y)") (auto simp: mixed_tie_def)

lemma line_key_inj: "line_key x = line_key y \<longleftrightarrow> x = y"
  by (cases x; cases y) (auto simp: flip_key_eq basis_key_eq)


lemma insert_line_mset: "insert_line lt x ys = Inr zs \<Longrightarrow> mset zs = add_mset x (mset ys)"
  by (induction ys arbitrary: zs) (auto split: sum.splits bool.splits)

lemma insert_line_set: "insert_line lt x ys = Inr zs \<Longrightarrow> set zs = insert x (set ys)"
  using insert_line_mset [of lt x ys zs] by (metis set_mset_add_mset_insert set_mset_mset)

lemma insert_line_sorted:
  fixes key :: "'a \<Rightarrow> 'k::linorder"
  assumes key: "\<And>a b r. lt a b = Inr r \<Longrightarrow> r = (key a < key b)"
  shows "sorted (map key ys) \<Longrightarrow> insert_line lt x ys = Inr zs \<Longrightarrow> sorted (map key zs)"
proof (induction ys arbitrary: zs)
  case Nil
  then show ?case by auto
next
  case (Cons y ys)
  from Cons.prems(2) obtain r where r: "lt x y = Inr r"
    by (cases "lt x y") auto
  show ?case
  proof (cases r)
    case True
    then have "key x < key y" using key [OF r] by simp
    moreover have "zs = x # y # ys" using Cons.prems(2) r True by simp
    ultimately show ?thesis using Cons.prems(1) by auto
  next
    case False
    then have le: "key y \<le> key x" using key [OF r] by simp
    from Cons.prems(2) r False obtain zs' where
      ins: "insert_line lt x ys = Inr zs'" and zs: "zs = y # zs'"
      by (cases "insert_line lt x ys") auto
    have "sorted (map key zs')" using Cons.IH [OF _ ins] Cons.prems(1) by simp
    moreover have "\<forall>z\<in>set zs'. key y \<le> key z"
      using insert_line_set [OF ins] le Cons.prems(1) by auto
    ultimately show ?thesis by (simp add: zs)
  qed
qed

lemma sort_from_sorted:
  fixes key :: "'a \<Rightarrow> 'k::linorder"
  assumes key: "\<And>a b r. lt a b = Inr r \<Longrightarrow> r = (key a < key b)"
  shows "sorted (map key sorted_part) \<Longrightarrow> sort_from lt sorted_part xs = Inr zs \<Longrightarrow>
           sorted (map key zs) \<and> mset zs = mset sorted_part + mset xs"
proof (induction xs arbitrary: sorted_part)
  case Nil
  then show ?case by simp
next
  case (Cons x xs)
  from Cons.prems(2) obtain part' where
    ins: "insert_line lt x sorted_part = Inr part'" and rest: "sort_from lt part' xs = Inr zs"
    by (cases "insert_line lt x sorted_part") auto
  have "sorted (map key part')"
    using insert_line_sorted [of lt key, OF key Cons.prems(1) ins] .
  from Cons.IH [OF this rest] insert_line_mset [OF ins] show ?case by simp
qed



lemma insert_line_error:
  "insert_line lt x ys = Inl err \<Longrightarrow> \<exists>y\<in>set ys. lt x y = Inl err"
  by (induction ys) (auto split: sum.splits bool.splits)

lemma sort_from_error:
  "sort_from lt sorted_part xs = Inl err \<Longrightarrow>
     \<exists>a\<in>set sorted_part \<union> set xs. \<exists>b\<in>set sorted_part \<union> set xs. lt a b = Inl err"
proof (induction xs arbitrary: sorted_part)
  case Nil
  then show ?case by simp
next
  case (Cons x xs)
  show ?case
  proof (cases "insert_line lt x sorted_part")
    case (Inl e)
    then have "e = err" using Cons.prems by simp
    with insert_line_error [OF Inl] show ?thesis by auto
  next
    case (Inr part')
    then have "sort_from lt part' xs = Inl err" using Cons.prems by simp
    from Cons.IH [OF this] insert_line_set [OF Inr] show ?thesis by auto
  qed
qed


lemma sort_reverse_error:
  assumes "sort_reverse py lengths = Inl err"
  shows "err = TypeError \<and> py = Python3 \<and> (\<exists>x\<in>set lengths. \<exists>y\<in>set lengths. mixed_tie x y)"
proof -
  have "sort_from (line_lt py) [] lengths = Inl err"
    using assms by (auto simp: sort_reverse_def list_sort_def split: sum.splits)
  from sort_from_error [OF this] obtain a b where
    "a \<in> set lengths" "b \<in> set lengths" "line_lt py a b = Inl err" by auto
  then show ?thesis using line_lt_error by blast
qed

lemma sort_reverse_sorted:
  assumes "sort_reverse py lengths = Inr ranking"
  shows "mset ranking = mset lengths" "sorted_wrt (\<lambda>x y. line_key y \<le> line_key x) ranking"
proof -
  from assms obtain zs where s: "sort_from (line_lt py) [] lengths = Inr zs" and r: "ranking = rev zs"
    by (auto simp: sort_reverse_def list_sort_def split: sum.splits)
  have "sorted (map line_key zs) \<and> mset zs = mset [] + mset lengths"
    by (rule sort_from_sorted [OF _ _ s]) (auto dest: line_lt_key)
  then show "mset ranking = mset lengths" "sorted_wrt (\<lambda>x y. line_key y \<le> line_key x) ranking"
    by (simp_all add: r sorted_wrt_rev sorted_map)
qed

lemma line_key_fst: "line_key y \<le> line_key x \<Longrightarrow> fst y \<le> fst x"
  by (cases x; cases y) (auto simp: less_eq_prod_def)


lemma line_key_less_fst: "line_key x < line_key y \<Longrightarrow> fst x \<le> fst y"
  by (cases x; cases y) (auto simp: less_prod_def)

lemma mixed_tie_sym: "mixed_tie x y \<longleftrightarrow> mixed_tie y x"
  by (auto simp: mixed_tie_def)

lemma mixed_tie_chain:
  "fst x = fst y \<Longrightarrow> \<not> mixed_tie x y \<Longrightarrow> \<not> mixed_tie y z \<Longrightarrow> \<not> mixed_tie x z"
  by (auto simp: mixed_tie_def)

lemma insert_line_no_mixed:
  assumes "sorted (map line_key ys)"
    and "\<forall>a\<in>set ys. \<forall>b\<in>set ys. \<not> mixed_tie a b"
    and "insert_line (line_lt Python3) x ys = Inr zs"
  shows "\<forall>b\<in>set ys. \<not> mixed_tie x b"
  using assms
proof (induction ys arbitrary: zs)
  case Nil
  then show ?case by simp
next
  case (Cons y ys)
  from Cons.prems(3) obtain r where r: "line_lt Python3 x y = Inr r"
    by (cases "line_lt Python3 x y") auto
  then have xy: "\<not> mixed_tie x y"
    using line_lt_Python3_mixed [of x y] by auto
  show ?case
  proof (cases r)
    case True
    then have less: "line_key x < line_key y" using line_lt_key [OF r] by simp
    have "\<not> mixed_tie x b" if b: "b \<in> set ys" for b
    proof
      assume m: "mixed_tie x b"
      have "line_key y \<le> line_key b" using Cons.prems(1) b by simp
      then have "fst y \<le> fst b" by (rule line_key_fst)
      moreover have "fst x \<le> fst y" using less by (rule line_key_less_fst)
      moreover have "fst x = fst b" using m by (simp add: mixed_tie_def)
      ultimately have "fst x = fst y" by simp
      moreover have "\<not> mixed_tie y b" using Cons.prems(2) b by simp
      ultimately show False using xy m mixed_tie_chain by blast
    qed
    with xy show ?thesis by simp
  next
    case False
    from Cons.prems(3) r False obtain zs' where ins: "insert_line (line_lt Python3) x ys = Inr zs'"
      by (cases "insert_line (line_lt Python3) x ys") auto
    have "\<forall>b\<in>set ys. \<not> mixed_tie x b"
      using Cons.IH [OF _ _ ins] Cons.prems(1,2) by simp
    with xy show ?thesis by simp
  qed
qed

lemma sort_from_no_mixed:
  assumes "sorted (map line_key sorted_part)"
    and "\<forall>a\<in>set sorted_part. \<forall>b\<in>set sorted_part. \<not> mixed_tie a b"
    and "sort_from (line_lt Python3) sorted_part xs = Inr zs"
  shows "\<forall>a\<in>set sorted_part \<union> set xs. \<forall>b\<in>set sorted_part \<union> set xs. \<not> mixed_tie a b"
  using assms
proof (induction xs arbitrary: sorted_part)
  case Nil
  then show ?case by simp
next
  case (Cons x xs)
  from Cons.prems(3) obtain part' where
    ins: "insert_line (line_lt Python3) x sorted_part = Inr part'"
    and rest: "sort_from (line_lt Python3) part' xs = Inr zs"
    by (cases "insert_line (line_lt Python3) x sorted_part") auto
  have sorted': "sorted (map line_key part')"
    by (rule insert_line_sorted [OF _ Cons.prems(1) ins]) (auto dest: line_lt_key)
  have set': "set part' = insert x (set sorted_part)"
    by (rule insert_line_set [OF ins])
  have new: "\<forall>b\<in>set sorted_part. \<not> mixed_tie x b"
    by (rule insert_line_no_mixed [OF Cons.prems(1,2) ins])
  have "\<not> mixed_tie x x" by (simp add: mixed_tie_def)
  with new Cons.prems(2) have "\<forall>a\<in>set part'. \<forall>b\<in>set part'. \<not> mixed_tie a b"
    unfolding set' using mixed_tie_sym by blast
  from Cons.IH [OF sorted' this rest] show ?case
    by (simp add: set')
qed

lemma sort_reverse_Python3_TypeError:
  assumes "x \<in> set lengths" "y \<in> set lengths" "mixed_tie x y"
  shows "sort_reverse Python3 lengths = Inl TypeError"
proof (cases "sort_reverse Python3 lengths")
  case (Inl err)
  then show ?thesis using sort_reverse_error by blast
next
  case (Inr ranking)
  then obtain zs where "sort_from (line_lt Python3) [] lengths = Inr zs"
    by (auto simp: sort_reverse_def list_sort_def split: sum.splits)
  from sort_from_no_mixed [OF _ _ this] assms show ?thesis by auto
qed


section \<open>A whole run\<close>






lemma export_best_ok:
  assumes cmds: "\<And>cmd. command_ok e cmd" and "ranking \<noteq> []"
  shows "\<exists>st'. export_best e a ranking st = (Inr (), st') \<and>
           tckgen_commands (trace st') = tckgen_commands (trace st) \<and>
           written_tables (trace st') = written_tables (trace st)"
  using assms(2)
  by (cases ranking)
     (auto simp: export_best_def run_command_def cmds ok_def tckgen_commands_append
        written_tables_append)

lemma dwigradcheck_ok:
  assumes opts: "args_grad a = None \<or> args_fslgrad a = None"
      "args_export_grad_mrtrix a = None \<or> args_export_grad_fsl a = None"
    and dims: "length (header_size e (args_input a)) = 4" "min_list (header_size e (args_input a)) \<noteq> 1"
    and cmds: "\<And>cmd. command_ok e cmd"
    and combined: "int (length (grad_b e)) = header_size e (args_input a) ! 3"
      "\<forall>row\<in>set (grad_b e). 4 \<le> length row"
    and split: "length (bvecs e) = 3" "int (length (bvecs e ! 0)) = header_size e (args_input a) ! 3"
  shows "\<exists>st'. dwigradcheck e a st =
           (sort_reverse (interpreter e)
              (map (\<lambda>c. (mean_length e (tckstats_command c), c)) candidates), st') \<and>
         tckgen_commands (trace st') =
           tckgen_commands (trace st) @ map (tckgen_command (number_option a)) candidates \<and>
         written_tables (trace st') =
           written_tables (trace st) @ map (\<lambda>c. (grad_path c, spec_table c (grad_b e) (bvecs e))) candidates"
proof -
  let ?n = "header_size e (args_input a) ! 3"
  let ?lengths = "map (\<lambda>c. (mean_length e (tckstats_command c), c)) candidates"
  obtain st1 where p: "prepare e a st = (Inr ?n, st1)"
    and t1: "tckgen_commands (trace st1) = tckgen_commands (trace st)"
      "written_tables (trace st1) = written_tables (trace st)"
    using prepare_ok [OF opts dims cmds] by blast
  obtain grad_mrtrix grad_fsl st2 where l: "load_tables e st1 = (Inr (grad_mrtrix, grad_fsl), st2)"
    and v: "valid_table st2 grad_mrtrix" "valid_table st2 grad_fsl"
    and r: "read_table st2 grad_mrtrix = grad_b e" "read_table st2 grad_fsl = bvecs e"
    and t2: "trace st2 = trace st1"
    using load_tables_ok [of e st1] by blast
  have c: "check_tables ?n grad_mrtrix grad_fsl st2 = (Inr (), st2)"
    using combined(1) split by (simp add: check_tables_read r)
  obtain st3 where m: "make_mask e st2 = (Inr (), st3)"
    and t3: "tckgen_commands (trace st3) = tckgen_commands (trace st2)"
      "written_tables (trace st3) = written_tables (trace st2)"
    and s3: "rows st3 = rows st2" "tabs st3 = tabs st2"
    using make_mask_ok [OF cmds] by blast
  have e3: "store_extends st2 st3" by (simp add: store_extends_def s3)
  note v3 = store_extends_valid [OF e3 v(1)] store_extends_valid [OF e3 v(2)]
  obtain st4 where s: "search e (number_option a) grad_mrtrix grad_fsl candidates [] st3 = (Inr ?lengths, st4)"
    and t4: "tckgen_commands (trace st4) =
      tckgen_commands (trace st3) @ map (tckgen_command (number_option a)) candidates"
      "written_tables (trace st4) =
      written_tables (trace st3) @ map (\<lambda>c. (grad_path c, spec_table c (grad_b e) (bvecs e))) candidates"
    using search_ok [of candidates st3 grad_mrtrix grad_fsl e "number_option a" "[]"]
      v3 r combined(2) split(1) cmds by auto
  have front: "dwigradcheck e a st =
      bind_s (\<lambda>st. (sort_reverse (interpreter e) ?lengths, st)) (\<lambda>ranking.
      bind_s (emit (PrintTable ranking)) (\<lambda>_.
      bind_s (export_best e a ranking) (\<lambda>_.
      bind_s (emit Complete) (\<lambda>_.
      ok ranking)))) st4"
    using p l c m s by (simp add: dwigradcheck_def bind_s_def)
  show ?thesis
  proof (cases "sort_reverse (interpreter e) ?lengths")
    case (Inl err)
    then show ?thesis
      using front t1 t2 t3 t4 by (simp add: bind_s_def)
  next
    case (Inr ranking)
    have "length ranking = length ?lengths"
      using sort_reverse_sorted(1) [OF Inr] by (rule mset_eq_length)
    then have "ranking \<noteq> []"
      using length_candidates by auto
    from export_best_ok [OF cmds this, of a "st4\<lparr>trace := trace st4 @ [PrintTable ranking]\<rparr>"]
    obtain st5 where x: "export_best e a ranking (st4\<lparr>trace := trace st4 @ [PrintTable ranking]\<rparr>) = (Inr (), st5)"
      and t5: "tckgen_commands (trace st5) = tckgen_commands (trace st4 @ [PrintTable ranking])"
        "written_tables (trace st5) = written_tables (trace st4 @ [PrintTable ranking])"
      by auto
    have "dwigradcheck e a st = (Inr ranking, st5\<lparr>trace := trace st5 @ [Complete]\<rparr>)"
      unfolding front using Inr x by (simp add: bind_s_def emit_def ok_def)
    moreover have "tckgen_commands (trace st5 @ [Complete]) =
        tckgen_commands (trace st) @ map (tckgen_command (number_option a)) candidates"
      using t1 t2 t3 t4 t5 by (simp add: tckgen_commands_append)
    moreover have "written_tables (trace st5 @ [Complete]) =
        written_tables (trace st) @ map (\<lambda>c. (grad_path c, spec_table c (grad_b e) (bvecs e))) candidates"
      using t1 t2 t3 t4 t5 by (simp add: written_tables_append)
    ultimately show ?thesis
      using Inr by simp
  qed
qed


section \<open>The example runs\<close>


lemma str_nat_digit: "n < 10 \<Longrightarrow> str_nat n = [''0123456789'' ! n]"
  by (simp add: str_nat.simps)


lemma example_run:
  assumes "length split = 3" "length (split ! 0) = 2"
    and "args_grad a = None \<or> args_fslgrad a = None"
    and "args_export_grad_mrtrix a = None \<or> args_export_grad_fsl a = None"
  shows "\<exists>st'. dwigradcheck (example_env py means split) a initial =
           (sort_reverse py (map (\<lambda>c. (means (tckstats_command c), c)) candidates), st') \<and>
         tckgen_commands (trace st') = map (tckgen_command (number_option a)) candidates"
proof -
  let ?e = "example_env py means split"
  have "\<exists>st'. dwigradcheck ?e a initial =
           (sort_reverse (interpreter ?e)
              (map (\<lambda>c. (mean_length ?e (tckstats_command c), c)) candidates), st') \<and>
         tckgen_commands (trace st') =
           tckgen_commands (trace initial) @ map (tckgen_command (number_option a)) candidates \<and>
         written_tables (trace st') =
           written_tables (trace initial) @
             map (\<lambda>c. (grad_path c, spec_table c (grad_b ?e) (bvecs ?e))) candidates"
    by (rule dwigradcheck_ok) (simp_all add: example_env_def assms)
  then show ?thesis by (auto simp: example_env_def initial_def)
qed





section \<open>The ranking\<close>





section \<open>The transformed tables of the candidates\<close>


lemma example_loaded_valid:
  "valid_table example_loaded 0" "valid_table example_loaded 1"
  "read_table example_loaded 0 = [[1, 0, 0, 1000], [0, 1, 0, 1000]]"
  "read_table example_loaded 1 = [[1, 0], [0, 1], [0, 0]]"
  by (simp_all add: example_loaded_def valid_table_def read_table_def)

lemma example_loaded_valid_Suc:
  "valid_table example_loaded (Suc 0)"
  "read_table example_loaded (Suc 0) = [[1, 0], [0, 1], [0, 0]]"
  using example_loaded_valid by simp_all

text \<open>
  C3. For every candidate and every loaded pair of tables (the rows of the combined table
  are 4-vectors or longer, the split table has three rows), the script builds and writes
  to the candidate's file exactly the table of the specification: scanner basis, the
  combined table with the direction column of the flip axis negated, the b-value column
  unchanged, the three direction columns reordered by the permutation and the b-value
  column last; image basis, the split rows with the row of the flip axis negated and
  reordered by the permutation; and nothing negated when the flip is \<^verbatim>\<open>'none'\<close>.
\<close>

theorem transformed_table_written:
  fixes st :: state
  assumes "c \<in> set candidates"
    and "valid_table st grad_mrtrix" "valid_table st grad_fsl"
    and "\<forall>row\<in>set (read_table st grad_mrtrix). 4 \<le> length row"
    and "length (read_table st grad_fsl) = 3"
  shows "\<exists>st'. write_grad c grad_mrtrix grad_fsl st = (Inr (), st') \<and>
           trace st' = trace st @ [WriteFile (grad_path c)
             (spec_table c (read_table st grad_mrtrix) (read_table st grad_fsl))]"
  using write_grad_table [OF assms] by blast

theorem transformed_table_written_witness:
  "\<exists>st'. write_grad (FlipAxis 0, (1, 0, 2), BasisScanner) 0 1 example_loaded = (Inr (), st') \<and>
     trace st' = [WriteFile ''grad_flip0_perm102_scanner.b'' [[0, - 1, 0, 1000], [1, 0, 0, 1000]]]"
proof -
  have c: "(FlipAxis 0, (1, 0, 2), BasisScanner) \<in> set candidates"
    by (simp add: candidates_unfolded)
  have "\<exists>st'. write_grad (FlipAxis 0, (1, 0, 2), BasisScanner) 0 1 example_loaded = (Inr (), st') \<and>
     trace st' = trace example_loaded @ [WriteFile (grad_path (FlipAxis 0, (1, 0, 2), BasisScanner))
       (spec_table (FlipAxis 0, (1, 0, 2), BasisScanner)
          (read_table example_loaded 0) (read_table example_loaded 1))]"
    by (rule transformed_table_written [OF c]) (simp_all add: example_loaded_valid example_loaded_valid_Suc)
  then show ?thesis
    by (simp add: example_loaded_valid example_loaded_valid_Suc spec_scanner_def str_nat_digit) (simp add: example_loaded_def)
qed

text \<open>
  In a whole run whose inputs pass the checks and whose commands succeed, the tables
  written are those of the 48 candidates in order, each built from the loaded tables.
\<close>

lemma run_writes_transformed_tables:
  assumes "args_grad a = None \<or> args_fslgrad a = None"
    and "args_export_grad_mrtrix a = None \<or> args_export_grad_fsl a = None"
    and "length (header_size e (args_input a)) = 4" "min_list (header_size e (args_input a)) \<noteq> 1"
    and "\<And>cmd. command_ok e cmd"
    and "int (length (grad_b e)) = header_size e (args_input a) ! 3"
    and "\<forall>row\<in>set (grad_b e). 4 \<le> length row"
    and "length (bvecs e) = 3" "int (length (bvecs e ! 0)) = header_size e (args_input a) ! 3"
  shows "written_tables (trace (snd (dwigradcheck e a initial))) =
           map (\<lambda>c. (grad_path c, spec_table c (grad_b e) (bvecs e))) candidates"
  using dwigradcheck_ok [OF assms, of initial]
  by (auto simp: initial_def)

text \<open>
  C8. The candidate with flip \<^verbatim>\<open>'none'\<close> and permutation \<open>(0, 1, 2)\<close> writes, in either
  basis, a table equal to the loaded table: the combined table for the scanner basis
  (its rows are 4-vectors), the split table for the image basis (it has three rows).
\<close>

theorem identity_candidate:
  fixes st :: state
  assumes "valid_table st grad_mrtrix" "valid_table st grad_fsl"
    and "\<forall>row\<in>set (read_table st grad_mrtrix). length row = 4"
    and "length (read_table st grad_fsl) = 3"
  shows "\<exists>st'. write_grad (FlipNone, (0, 1, 2), basis) grad_mrtrix grad_fsl st = (Inr (), st') \<and>
           trace st' = trace st @ [WriteFile (grad_path (FlipNone, (0, 1, 2), basis))
             (case basis of BasisScanner \<Rightarrow> read_table st grad_mrtrix
                          | BasisImage \<Rightarrow> read_table st grad_fsl)]"
proof -
  have c: "(FlipNone, (0, 1, 2), basis) \<in> set candidates"
    by (cases basis) (simp_all add: candidates_unfolded)
  have wide: "\<forall>row\<in>set (read_table st grad_mrtrix). 4 \<le> length row"
    using assms(3) by simp
  have four: "[row ! 0, row ! 1, row ! 2, row ! 3] = row" if "length row = 4" for row :: "real list"
    using that by (intro nth_equalityI) (auto simp: nth_Cons' numeral_eq_Suc less_Suc_eq)
  have three: "[t ! 0, t ! 1, t ! 2] = t" if "length t = 3" for t :: "real list list"
    using that by (intro nth_equalityI) (auto simp: nth_Cons' numeral_eq_Suc less_Suc_eq)
  have "spec_scanner FlipNone (0, 1, 2) (read_table st grad_mrtrix) = read_table st grad_mrtrix"
    unfolding spec_scanner_def using assms(3) four by (intro map_idI) simp
  moreover have "spec_image FlipNone (0, 1, 2) (read_table st grad_fsl) = read_table st grad_fsl"
    using three [OF assms(4)] by simp
  ultimately have "spec_table (FlipNone, (0, 1, 2), basis) (read_table st grad_mrtrix) (read_table st grad_fsl) =
      (case basis of BasisScanner \<Rightarrow> read_table st grad_mrtrix | BasisImage \<Rightarrow> read_table st grad_fsl)"
    by (cases basis) simp_all
  with write_grad_table [OF c assms(1,2) wide assms(4)] show ?thesis
    by auto
qed

theorem identity_candidate_witness:
  "\<exists>st'. write_grad (FlipNone, (0, 1, 2), BasisImage) 0 1 example_loaded = (Inr (), st') \<and>
     trace st' = [WriteFile ''bvecs_flipnone_perm012_image'' [[1, 0], [0, 1], [0, 0]]]"
proof -
  have "\<exists>st'. write_grad (FlipNone, (0, 1, 2), BasisImage) 0 1 example_loaded = (Inr (), st') \<and>
     trace st' = trace example_loaded @ [WriteFile (grad_path (FlipNone, (0, 1, 2), BasisImage))
       (case BasisImage of BasisScanner \<Rightarrow> read_table example_loaded 0
          | BasisImage \<Rightarrow> read_table example_loaded 1)]"
    by (rule identity_candidate) (simp_all add: example_loaded_valid example_loaded_valid_Suc)
  then show ?thesis
    by (simp add: example_loaded_valid example_loaded_valid_Suc str_nat_digit) (simp add: example_loaded_def)
qed

text \<open>
  C7. The loaded tables are never changed in place: after any number \<open>k\<close> of the 48
  iterations (also when one of them ends the run), every list object that existed before
  the search is unchanged, and both loaded tables read element for element as before, so
  that each candidate is built from the loaded tables.
\<close>

theorem loaded_tables_never_mutated:
  fixes st :: state
  assumes "valid_table st grad_mrtrix" "valid_table st grad_fsl"
    and "search e number_opt grad_mrtrix grad_fsl (take k candidates) lengths st = (res, st')"
  shows "store_extends st st' \<and>
         read_table st' grad_mrtrix = read_table st grad_mrtrix \<and>
         read_table st' grad_fsl = read_table st grad_fsl"
proof -
  have e: "store_extends st st'" using assms(3) by (rule search_frame)
  show ?thesis
    using e store_extends_valid(2) [OF e assms(1)] store_extends_valid(2) [OF e assms(2)] by simp
qed

theorem loaded_tables_never_mutated_witness:
  "read_table (snd (search (example_env Python3 all_equal example_bvecs) '' -select 10000'' 0 1
      (take 48 candidates) [] example_loaded)) 0 = [[1, 0, 0, 1000], [0, 1, 0, 1000]] \<and>
   read_table (snd (search (example_env Python3 all_equal example_bvecs) '' -select 10000'' 0 1
      (take 48 candidates) [] example_loaded)) 1 = [[1, 0], [0, 1], [0, 0]]"
  using loaded_tables_never_mutated [OF example_loaded_valid(1,2) surjective_pairing,
      of "example_env Python3 all_equal example_bvecs" "'' -select 10000''" 48 "[]"]
  by (simp add: example_loaded_valid example_loaded_valid_Suc)


section \<open>The checks of the inputs\<close>


lemma min_list_one:
  fixes xs :: "int list"
  assumes "\<forall>d\<in>set xs. 1 \<le> d" "1 \<in> set xs"
  shows "min_list xs = 1"
proof -
  have "xs \<noteq> []" using assms(2) by auto
  then have "min_list xs = Min (set xs)" by (rule min_list_Min)
  also have "\<dots> = 1" using assms by (intro Min_eqI) auto
  finally show ?thesis .
qed

text \<open>
  C4. For every accepted command line and every image header (its sizes are positive
  counts) that does not describe a 4-D image, or one of whose spatial dimensions does not
  exceed 1, the run fails with \<open>InvalidInputError\<close> after the header query alone: no
  scratch directory is made, no file is written and no command is run.
\<close>

theorem invalid_image_rejected:
  assumes "args_grad a = None \<or> args_fslgrad a = None"
    and "args_export_grad_mrtrix a = None \<or> args_export_grad_fsl a = None"
    and "\<forall>d\<in>set (header_size e (args_input a)). 1 \<le> d"
    and "length (header_size e (args_input a)) \<noteq> 4
         \<or> (\<exists>d\<in>set (take 3 (header_size e (args_input a))). d \<le> 1)"
  shows "dwigradcheck e a st =
           (Inl InvalidInputError, st\<lparr>trace := trace st @ [HeaderField (args_input a) ''size'']\<rparr>)"
proof -
  let ?dims = "header_size e (args_input a)"
  have "length ?dims \<noteq> 4 \<or> min_list ?dims = 1"
  proof (cases "length ?dims = 4")
    case True
    then obtain d where d: "d \<in> set (take 3 ?dims)" "d \<le> 1" using assms(4) by auto
    then have "d \<in> set ?dims" by (auto dest: in_set_takeD)
    with d(2) assms(3) have "1 \<in> set ?dims" by force
    then show ?thesis using assms(3) min_list_one by blast
  qed simp
  then have "check_image e a st =
      (Inl InvalidInputError, st\<lparr>trace := trace st @ [HeaderField (args_input a) ''size'']\<rparr>)"
    by (auto simp: check_image_def bind_s_def emit_def raise_def Let_def)
  then show ?thesis
    using parse_ok [OF assms(1,2)]
    by (simp add: dwigradcheck_def prepare_def bind_s_def)
qed

theorem invalid_image_rejected_witness:
  "dwigradcheck (example_env Python3 all_equal example_bvecs\<lparr>header_size := \<lambda>_. [1, 64, 64, 30]\<rparr>)
     example_args initial =
   (Inl InvalidInputError, \<lparr>trace = [HeaderField ''dwi.mif'' ''size''], files = [], rows = [], tabs = []\<rparr>)"
proof -
  let ?e = "example_env Python3 all_equal example_bvecs\<lparr>header_size := \<lambda>_. [1, 64, 64, 30]\<rparr>"
  have "dwigradcheck ?e example_args initial =
      (Inl InvalidInputError,
       initial\<lparr>trace := trace initial @ [HeaderField (args_input example_args) ''size'']\<rparr>)"
    by (rule invalid_image_rejected) (simp_all add: example_env_def example_args_def)
  then show ?thesis
    by (simp add: initial_def example_args_def)
qed

text \<open>
  C5. When both export options are given, or both import options, the run fails with
  \<open>MutuallyExclusiveOptionError\<close> and the state is untouched: no external tool has been
  invoked.
\<close>

theorem exclusive_options_rejected:
  assumes "args_export_grad_mrtrix a \<noteq> None \<and> args_export_grad_fsl a \<noteq> None
           \<or> args_grad a \<noteq> None \<and> args_fslgrad a \<noteq> None"
  shows "dwigradcheck e a st = (Inl MutuallyExclusiveOptionError, st)"
  using assms
  by (auto simp: dwigradcheck_def prepare_def bind_s_def parse_def raise_def)

theorem exclusive_options_rejected_witness:
  "dwigradcheck (example_env Python3 all_equal example_bvecs)
     (example_args\<lparr>args_export_grad_mrtrix := Some ''out.b'',
                    args_export_grad_fsl := Some (''out.bvecs'', ''out.bvals'')\<rparr>) initial =
   (Inl MutuallyExclusiveOptionError, initial)"
  by (rule exclusive_options_rejected) simp







section \<open>The sort under Python 3\<close>

text \<open>
  C9 fails on the code. With Python 3 and every candidate reported with the same mean
  length, the comparison of two lines reaches the flips \<^verbatim>\<open>'none'\<close> and \<open>0\<close>, and the sort
  ends the run with \<open>TypeError\<close>.
\<close>

theorem sort_raises_TypeError:
  "fst (dwigradcheck (example_env Python3 all_equal example_bvecs) example_args initial) = Inl TypeError"
proof -
  let ?lengths = "map (\<lambda>c. (all_equal (tckstats_command c), c)) candidates"
  let ?x = "(5, FlipNone, (0, 1, 2), BasisScanner) :: result"
  let ?y = "(5, FlipAxis 0, (0, 1, 2), BasisScanner) :: result"
  obtain st' where run: "dwigradcheck (example_env Python3 all_equal example_bvecs) example_args initial =
      (sort_reverse Python3 ?lengths, st')"
    using example_run [of example_bvecs example_args Python3 all_equal]
    by (auto simp: example_bvecs_def example_args_def)
  have "?x \<in> set ?lengths" "?y \<in> set ?lengths"
    by (simp_all add: candidates_unfolded all_equal_def)
  moreover have "mixed_tie ?x ?y"
    by (simp add: mixed_tie_def)
  ultimately have "sort_reverse Python3 ?lengths = Inl TypeError"
    by (rule sort_reverse_Python3_TypeError)
  with run show ?thesis by simp
qed


section \<open>The streamline budget\<close>




end
